theory Spec2Isabelle
  imports Main "HOL-Library.Word"
begin

section \<open>Data model of claimtrie/cmd/cmd/chain.go\<close>

text \<open>
  Byte slices and fixed byte arrays (transaction hashes, claim names, claim identifiers,
  scripts) are lists of bytes. Heights are Go \<open>int32\<close> values; the only arithmetic the
  file does on them is \<open>ht + 1\<close> and \<open>ht++\<close> under the guard \<open>ht < toHeight\<close>, which
  cannot leave the \<open>int32\<close> range, so they are integers here. Amounts are \<open>int64\<close> values
  that are only copied.
\<close>

type_synonym bytes = "8 word list"

record OutPoint =
  Hash :: bytes
  Index :: "32 word"

text \<open>
  \<open>change.ChangeType\<close> is an integer type with five named values; the replay command has a
  \<open>default\<close> branch for every other value, which \<open>InvalidChangeType\<close> stands for.
\<close>

datatype ChangeType =
  AddClaim | UpdateClaim | SpendClaim | AddSupport | SpendSupport | InvalidChangeType nat

record Change =
  Type :: ChangeType
  Height :: int
  Name :: bytes
  ClaimID :: bytes
  OutPoint :: OutPoint
  Amount :: int

record TxOut =
  Value :: int
  PkScript :: bytes

record TxIn =
  PreviousOutPoint :: OutPoint

record Tx =
  tx_Hash :: bytes
  tx_TxIn :: "TxIn list"
  tx_TxOut :: "TxOut list"

text \<open>\<open>ClaimTrie\<close> is the commitment hash of the block header.\<close>

record Block =
  block_Height :: int
  Transactions :: "Tx list"
  ClaimTrie :: bytes

text \<open>The part of a \<open>blockchain.UtxoEntry\<close> that the extractor reads, and what a view stores.\<close>

record UtxoEntry =
  entry_amount :: int
  entry_pkScript :: bytes
  entry_blockHeight :: int

text \<open>
  A decoded claim script, as the extractor uses it through \<open>cs.Opcode()\<close>, \<open>cs.Name()\<close>
  and \<open>cs.ClaimID()\<close>. The three opcodes are the cases of the source's two switches.
\<close>

datatype opcode = OP_CLAIMNAME | OP_SUPPORTCLAIM | OP_UPDATECLAIM

record ClaimScript =
  cs_Opcode :: opcode
  cs_Name :: bytes
  cs_ClaimID :: bytes

text \<open>
  \<open>txscript.DecodeClaimScript\<close> returns a claim script, nil when it has none, and an
  error. The extractor compares the error with the sentinel \<open>ErrNotClaimScript\<close>; every
  other error is \<open>ErrInvalidClaimScript\<close> here.
\<close>

datatype decode_error = ErrNotClaimScript | ErrInvalidClaimScript

section \<open>The extractor: the body of processBlock\<close>

text \<open>
  The collaborators of the extractor that live in other packages (\<open>blockchain\<close>,
  \<open>txscript\<close>, \<open>change\<close>) are parameters: every theorem below holds for all of them.
  \<open>'v\<close> is the type of the unspent-output view. \<open>LookupEntry\<close> returns a pointer, which is
  \<open>None\<close> when it is nil; so does the first component of \<open>DecodeClaimScript\<close>.
\<close>

record 'v extractor_env =
  NewUtxoViewpoint :: 'v
  AddTxOuts :: "Tx \<Rightarrow> int \<Rightarrow> 'v \<Rightarrow> 'v"
  LookupEntry :: "'v \<Rightarrow> OutPoint \<Rightarrow> UtxoEntry option"
  IsCoinBase :: "Tx \<Rightarrow> bool"
  DecodeClaimScript :: "bytes \<Rightarrow> ClaimScript option \<times> decode_error option"
  NewClaimID :: "OutPoint \<Rightarrow> bytes"

text \<open>
  The calls the extractor makes on the view, in the order it makes them.
\<close>

datatype view_event = EvAddTxOuts Tx int | EvLookupEntry OutPoint

text \<open>
  \<open>log.Criticalf\<close> only logs. Reading through a nil value (\<open>e.PkScript()\<close>,
  \<open>cs.Name()\<close>) makes the Go runtime panic, which ends the process; so does
  \<open>changes[0]\<close> on an empty slice.
\<close>

datatype panic = NilUtxoEntry OutPoint | NilClaimScript | IndexOutOfRange

record 'v extract_state =
  view :: 'v
  changes :: "Change list"
  events :: "view_event list"

type_synonym 'v extract_result = "(panic \<times> 'v extract_state) + 'v extract_state"

text \<open>
  \<open>copy(chg.ClaimID[:], src)\<close> into the zeroed 20-byte array of a fresh \<open>Change\<close>:
  \<open>copy\<close> moves \<open>min 20 (len src)\<close> bytes.
\<close>

definition copy_ClaimID :: "bytes \<Rightarrow> bytes" where
  "copy_ClaimID src = take 20 src @ replicate (20 - length src) 0"

text \<open>Lines 343-359: the Change of a spent claim-bearing output.\<close>

definition spendChange :: "'v extractor_env \<Rightarrow> int \<Rightarrow> OutPoint \<Rightarrow> ClaimScript \<Rightarrow> Change" where
  "spendChange env h op cs =
     (case cs_Opcode cs of
        OP_CLAIMNAME \<Rightarrow>
          \<lparr>Type = SpendClaim, Height = h, Name = cs_Name cs,
           ClaimID = NewClaimID env op, OutPoint = op, Amount = 0\<rparr>
      | OP_UPDATECLAIM \<Rightarrow>
          \<lparr>Type = SpendClaim, Height = h, Name = cs_Name cs,
           ClaimID = copy_ClaimID (cs_ClaimID cs), OutPoint = op, Amount = 0\<rparr>
      | OP_SUPPORTCLAIM \<Rightarrow>
          \<lparr>Type = SpendSupport, Height = h, Name = cs_Name cs,
           ClaimID = copy_ClaimID (cs_ClaimID cs), OutPoint = op, Amount = 0\<rparr>)"

text \<open>Lines 372-389: the Change of a produced claim-bearing output.\<close>

definition addChange :: "'v extractor_env \<Rightarrow> int \<Rightarrow> OutPoint \<Rightarrow> int \<Rightarrow> ClaimScript \<Rightarrow> Change" where
  "addChange env h op v cs =
     (case cs_Opcode cs of
        OP_CLAIMNAME \<Rightarrow>
          \<lparr>Type = AddClaim, Height = h, Name = cs_Name cs,
           ClaimID = NewClaimID env op, OutPoint = op, Amount = v\<rparr>
      | OP_SUPPORTCLAIM \<Rightarrow>
          \<lparr>Type = AddSupport, Height = h, Name = cs_Name cs,
           ClaimID = copy_ClaimID (cs_ClaimID cs), OutPoint = op, Amount = v\<rparr>
      | OP_UPDATECLAIM \<Rightarrow>
          \<lparr>Type = UpdateClaim, Height = h, Name = cs_Name cs,
           ClaimID = copy_ClaimID (cs_ClaimID cs), OutPoint = op, Amount = v\<rparr>)"

text \<open>
  Lines 330-361, one input: \<open>Inr None\<close> is the \<open>continue\<close>, \<open>Inr (Some chg)\<close> the Change
  that is appended.
\<close>

definition processTxIn :: "'v extractor_env \<Rightarrow> int \<Rightarrow> 'v \<Rightarrow> TxIn \<Rightarrow> panic + Change option" where
  "processTxIn env h v txIn =
     (let op = PreviousOutPoint txIn in
      case LookupEntry env v op of
        None \<Rightarrow> Inl (NilUtxoEntry op)
      | Some e \<Rightarrow>
          (case DecodeClaimScript env (entry_pkScript e) of
             (cs, err) \<Rightarrow>
               if err = Some ErrNotClaimScript then Inr None
               else (case cs of
                       None \<Rightarrow> Inl NilClaimScript
                     | Some c \<Rightarrow> Inr (Some (spendChange env h op c)))))"

fun processTxIns :: "'v extractor_env \<Rightarrow> int \<Rightarrow> TxIn list \<Rightarrow> 'v extract_state \<Rightarrow> 'v extract_result" where
  "processTxIns env h [] st = Inr st"
| "processTxIns env h (txIn # rest) st =
     (let st1 = st\<lparr>events := events st @ [EvLookupEntry (PreviousOutPoint txIn)]\<rparr> in
      case processTxIn env h (view st1) txIn of
        Inl p \<Rightarrow> Inl (p, st1)
      | Inr None \<Rightarrow> processTxIns env h rest st1
      | Inr (Some chg) \<Rightarrow> processTxIns env h rest (st1\<lparr>changes := changes st1 @ [chg]\<rparr>))"

text \<open>Lines 365-391, one output; \<open>i\<close> is the loop index.\<close>

definition processTxOut :: "'v extractor_env \<Rightarrow> int \<Rightarrow> bytes \<Rightarrow> nat \<Rightarrow> TxOut \<Rightarrow> panic + Change option" where
  "processTxOut env h txh i txOut =
     (case DecodeClaimScript env (PkScript txOut) of
        (cs, err) \<Rightarrow>
          if err = Some ErrNotClaimScript then Inr None
          else (case cs of
                  None \<Rightarrow> Inl NilClaimScript
                | Some c \<Rightarrow>
                    Inr (Some (addChange env h \<lparr>Hash = txh, Index = of_nat i\<rparr> (Value txOut) c))))"

fun processTxOuts :: "'v extractor_env \<Rightarrow> int \<Rightarrow> bytes \<Rightarrow> nat \<Rightarrow> TxOut list \<Rightarrow> 'v extract_state \<Rightarrow> 'v extract_result" where
  "processTxOuts env h txh i [] st = Inr st"
| "processTxOuts env h txh i (txOut # rest) st =
     (case processTxOut env h txh i txOut of
        Inl p \<Rightarrow> Inl (p, st)
      | Inr None \<Rightarrow> processTxOuts env h txh (Suc i) rest st
      | Inr (Some chg) \<Rightarrow> processTxOuts env h txh (Suc i) rest (st\<lparr>changes := changes st @ [chg]\<rparr>))"

text \<open>Lines 323-391, one transaction.\<close>

definition processTx :: "'v extractor_env \<Rightarrow> int \<Rightarrow> Tx \<Rightarrow> 'v extract_state \<Rightarrow> 'v extract_result" where
  "processTx env h tx st =
     (let st1 = st\<lparr>view := AddTxOuts env tx h (view st),
                   events := events st @ [EvAddTxOuts tx h]\<rparr> in
      if IsCoinBase env tx then Inr st1
      else (case processTxIns env h (tx_TxIn tx) st1 of
              Inl x \<Rightarrow> Inl x
            | Inr st2 \<Rightarrow> processTxOuts env h (tx_Hash tx) 0 (tx_TxOut tx) st2))"

fun processTxs :: "'v extractor_env \<Rightarrow> int \<Rightarrow> Tx list \<Rightarrow> 'v extract_state \<Rightarrow> 'v extract_result" where
  "processTxs env h [] st = Inr st"
| "processTxs env h (tx # rest) st =
     (case processTx env h tx st of
        Inl x \<Rightarrow> Inl x
      | Inr st1 \<Rightarrow> processTxs env h rest st1)"

text \<open>Lines 321-392: one block, starting from an empty \<open>changes\<close> slice.\<close>

definition extractBlock :: "'v extractor_env \<Rightarrow> Block \<Rightarrow> 'v extract_state \<Rightarrow> 'v extract_result" where
  "extractBlock env b st = processTxs env (block_Height b) (Transactions b) (st\<lparr>changes := []\<rparr>)"

section \<open>The three stages of the converter\<close>

text \<open>
  A channel is the list of what was sent on it, in order: each channel has one sender and
  one receiver, so a receiver sees a prefix of that list.
\<close>

type_synonym error = string

record chain =
  BestHeight :: int
  BlockByHeight :: "int \<Rightarrow> error + Block"

record fetch_state =
  blockChan :: "Block list"
  reads :: "int list"
  blocksFetched :: nat

text \<open>Lines 304-312; \<open>reads\<close> lists the heights \<open>BlockByHeight\<close> was called with.\<close>

function getBlock_loop :: "chain \<Rightarrow> int \<Rightarrow> int \<Rightarrow> fetch_state \<Rightarrow> fetch_state" where
  "getBlock_loop c ht toHeight st =
     (if ht < toHeight then
        (let st1 = st\<lparr>reads := reads st @ [ht]\<rparr> in
         case BlockByHeight c ht of
           Inl e \<Rightarrow> st1
         | Inr block \<Rightarrow>
             getBlock_loop c (ht + 1) toHeight
               (st1\<lparr>blocksFetched := Suc (blocksFetched st1),
                    blockChan := blockChan st1 @ [block]\<rparr>))
      else st)"
  by pat_completeness auto
termination
  by (relation "measure (\<lambda>(c, ht, toHeight, st). nat (toHeight - ht))") auto

declare getBlock_loop.simps [simp del]

text \<open>Lines 292-313.\<close>

definition getBlock :: "chain \<Rightarrow> fetch_state" where
  "getBlock c =
     (let toHeight = 200000;
          toHeight = (if toHeight > BestHeight c then BestHeight c else toHeight)
      in getBlock_loop c 0 toHeight \<lparr>blockChan = [], reads = [], blocksFetched = 0\<rparr>)"

record process_result =
  changesChan :: "Change list list"
  blocksProcessed :: nat
  crashed :: "panic option"

text \<open>Lines 320-398: the loop over the block channel.\<close>

fun processBlock_loop :: "'v extractor_env \<Rightarrow> Block list \<Rightarrow> 'v extract_state \<Rightarrow> Change list list \<Rightarrow> nat \<Rightarrow> process_result" where
  "processBlock_loop env [] st chan n =
     \<lparr>changesChan = chan, blocksProcessed = n, crashed = None\<rparr>"
| "processBlock_loop env (block # rest) st chan n =
     (case extractBlock env block st of
        Inl (p, st1) \<Rightarrow> \<lparr>changesChan = chan, blocksProcessed = n, crashed = Some p\<rparr>
      | Inr st1 \<Rightarrow>
          processBlock_loop env rest st1
            (if length (changes st1) \<noteq> 0 then chan @ [changes st1] else chan) (Suc n))"

definition processBlock :: "'v extractor_env \<Rightarrow> Block list \<Rightarrow> process_result" where
  "processBlock env blocks =
     processBlock_loop env blocks \<lparr>view = NewUtxoViewpoint env, changes = [], events = []\<rparr> [] 0"

text \<open>
  Paths: \<open>filepath.Join\<close> of its elements, kept as the list of the elements. The package
  variables \<open>dataDir\<close>, \<open>netName\<close> and \<open>cfg\<close> are parameters.
\<close>

type_synonym path = "string list"

record config =
  BlockRepoPebble :: string
  NodeRepoPebble :: string
  MerkleTrieRepoPebble :: string
  TemporalRepoPebble :: string
  ChainRepoPebble :: string

record globals =
  dataDir :: string
  netName :: string
  cfg :: config

definition claim_db_path :: "globals \<Rightarrow> string \<Rightarrow> path" where
  "claim_db_path g dbName = [dataDir g, netName g, ''claim_dbs'', dbName]"

text \<open>
  What a command does to the file system, the Change Log Store, the state machine and the
  block source, in order.
\<close>

datatype io_event =
    EvRemoveAll path
  | EvNewPebble path
  | EvLoad int
  | EvSave int "Change list"
  | EvCloseRepo
  | EvClaimtrieNew
  | EvChange Change
  | EvAppendBlock
  | EvBlockByHeight int
  | EvCloseClaimtrie

datatype store_error = ErrNotFound | ErrStore

text \<open>The Change Log Store (\<open>chainrepo.Pebble\<close>), a parameter.\<close>

record chainrepo =
  NewPebble :: "path \<Rightarrow> error option"
  Load :: "int \<Rightarrow> Change list \<times> store_error option"
  Save :: "int \<Rightarrow> Change list \<Rightarrow> error option"

record save_state =
  save_trace :: "io_event list"
  changesSaved :: nat

text \<open>Lines 412-419.\<close>

fun saveChanges_loop :: "chainrepo \<Rightarrow> Change list list \<Rightarrow> save_state \<Rightarrow> panic option \<times> save_state" where
  "saveChanges_loop repo [] st = (None, st)"
| "saveChanges_loop repo (chgs # rest) st =
     (case chgs of
        [] \<Rightarrow> (Some IndexOutOfRange, st)
      | c # _ \<Rightarrow>
          (let st1 = st\<lparr>save_trace := save_trace st @ [EvSave (Height c) chgs]\<rparr> in
           case Save repo (Height c) chgs of
             Some e \<Rightarrow> (None, st1)
           | None \<Rightarrow> saveChanges_loop repo rest (st1\<lparr>changesSaved := Suc (changesSaved st1)\<rparr>)))"

text \<open>
  Lines 401-420; the deferred \<open>Close\<close> runs when the function returns and when it
  panics.
\<close>

definition saveChanges :: "globals \<Rightarrow> chainrepo \<Rightarrow> Change list list \<Rightarrow> panic option \<times> save_state" where
  "saveChanges g repo chan =
     (let dbPath = claim_db_path g (ChainRepoPebble (cfg g));
          st = \<lparr>save_trace = [EvNewPebble dbPath], changesSaved = 0\<rparr> in
      case NewPebble repo dbPath of
        Some e \<Rightarrow> (None, st)
      | None \<Rightarrow>
          (case saveChanges_loop repo chan st of
             (p, st1) \<Rightarrow> (p, st1\<lparr>save_trace := save_trace st1 @ [EvCloseRepo]\<rparr>)))"

text \<open>
  Lines 218-250, the convert command with its flag \<open>height\<close>: the three stages, each run
  to its end on what the stage before it sent.
\<close>

record 'v convert_env =
  cv_loadBlocksDB :: "error option"
  cv_loadChain :: "error + chain"
  cv_extractor :: "'v extractor_env"
  cv_chainrepo :: chainrepo

record convert_result =
  fetched :: fetch_state
  processed :: process_result
  persisted :: "panic option \<times> save_state"

datatype convert_error = ConvertLoadBlockDB error | ConvertLoadChain error

definition convert :: "globals \<Rightarrow> 'v convert_env \<Rightarrow> int \<Rightarrow> convert_error + convert_result" where
  "convert g env height =
     (case cv_loadBlocksDB env of
        Some e \<Rightarrow> Inl (ConvertLoadBlockDB e)
      | None \<Rightarrow>
          (case cv_loadChain env of
             Inl e \<Rightarrow> Inl (ConvertLoadChain e)
           | Inr c \<Rightarrow>
               (let f = getBlock c;
                    p = processBlock (cv_extractor env) (blockChan f);
                    s = saveChanges g (cv_chainrepo env) (changesChan p)
                in Inr \<lparr>fetched = f, processed = p, persisted = s\<rparr>)))"

section \<open>The replay command\<close>

text \<open>
  The state machine (\<open>claimtrie.ClaimTrie\<close>) and the commands' helpers \<open>loadBlocksDB\<close> and
  \<open>loadChain\<close> are parameters; \<open>'s\<close> is the state of the state machine. A mutating
  operation returns its error and the state it leaves behind.
\<close>

record 's replay_env =
  RemoveAll :: "path \<Rightarrow> error option"
  rp_chainrepo :: chainrepo
  claimtrie_New :: "path \<Rightarrow> error + 's"
  rp_loadBlocksDB :: "error option"
  rp_loadChain :: "error + chain"
  ct_AddClaim :: "bytes \<Rightarrow> OutPoint \<Rightarrow> bytes \<Rightarrow> int \<Rightarrow> 's \<Rightarrow> error option \<times> 's"
  ct_UpdateClaim :: "bytes \<Rightarrow> OutPoint \<Rightarrow> int \<Rightarrow> bytes \<Rightarrow> 's \<Rightarrow> error option \<times> 's"
  ct_SpendClaim :: "bytes \<Rightarrow> OutPoint \<Rightarrow> bytes \<Rightarrow> 's \<Rightarrow> error option \<times> 's"
  ct_AddSupport :: "bytes \<Rightarrow> OutPoint \<Rightarrow> int \<Rightarrow> bytes \<Rightarrow> 's \<Rightarrow> error option \<times> 's"
  ct_SpendSupport :: "bytes \<Rightarrow> OutPoint \<Rightarrow> bytes \<Rightarrow> 's \<Rightarrow> error option \<times> 's"
  ct_AppendBlock :: "'s \<Rightarrow> error option \<times> 's"
  ct_Height :: "'s \<Rightarrow> int"
  ct_MerkleHash :: "'s \<Rightarrow> bytes"

datatype append_error =
    AppendBlockErr error
  | LoadFromBlockRepo error
  | HashMismatched int bytes bytes

datatype replay_error =
    DeleteRepo path error
  | OpenChainRepo error
  | CreateClaimtrie error
  | LoadBlocksDatabase error
  | LoadChain error
  | LoadChanges int
  | ExecuteChange Change error
  | AppendBlockFailed append_error

record 's replay_state =
  ct :: 's
  trace :: "io_event list"

text \<open>Lines 149-162: the switch on the type of a Change.\<close>

definition executeChange :: "'s replay_env \<Rightarrow> Change \<Rightarrow> 's \<Rightarrow> error option \<times> 's" where
  "executeChange env chg c =
     (case Type chg of
        AddClaim \<Rightarrow> ct_AddClaim env (Name chg) (OutPoint chg) (ClaimID chg) (Amount chg) c
      | UpdateClaim \<Rightarrow> ct_UpdateClaim env (Name chg) (OutPoint chg) (Amount chg) (ClaimID chg) c
      | SpendClaim \<Rightarrow> ct_SpendClaim env (Name chg) (OutPoint chg) (ClaimID chg) c
      | AddSupport \<Rightarrow> ct_AddSupport env (Name chg) (OutPoint chg) (Amount chg) (ClaimID chg) c
      | SpendSupport \<Rightarrow> ct_SpendSupport env (Name chg) (OutPoint chg) (ClaimID chg) c
      | InvalidChangeType n \<Rightarrow> (Some ''invalid change type'', c))"

text \<open>Lines 147-167: the loop over the loaded batch.\<close>

fun executeChanges :: "'s replay_env \<Rightarrow> Change list \<Rightarrow> 's replay_state \<Rightarrow> replay_error option \<times> 's replay_state" where
  "executeChanges env [] st = (None, st)"
| "executeChanges env (chg # rest) st =
     (case executeChange env chg (ct st) of
        (err, c) \<Rightarrow>
          (let st1 = \<lparr>ct = c, trace = trace st @ [EvChange chg]\<rparr> in
           case err of
             Some e \<Rightarrow> (Some (ExecuteChange chg e), st1)
           | None \<Rightarrow> executeChanges env rest st1))"

text \<open>Lines 190-208.\<close>

definition appendBlock :: "'s replay_env \<Rightarrow> chain \<Rightarrow> 's replay_state \<Rightarrow> append_error option \<times> 's replay_state" where
  "appendBlock env c st =
     (case ct_AppendBlock env (ct st) of
        (err, t) \<Rightarrow>
          (let st1 = \<lparr>ct = t, trace = trace st @ [EvAppendBlock]\<rparr> in
           case err of
             Some e \<Rightarrow> (Some (AppendBlockErr e), st1)
           | None \<Rightarrow>
               (let st2 = st1\<lparr>trace := trace st1 @ [EvBlockByHeight (ct_Height env t)]\<rparr> in
                case BlockByHeight c (ct_Height env t) of
                  Inl e \<Rightarrow> (Some (LoadFromBlockRepo e), st2)
                | Inr block \<Rightarrow>
                    (let hash = ClaimTrie block in
                     if ct_MerkleHash env t \<noteq> hash
                     then (Some (HashMismatched (ct_Height env t) hash (ct_MerkleHash env t)), st2)
                     else (None, st2)))))"

text \<open>
  Lines 140-175, one turn of the loop at \<open>ht\<close>. The two tests on the error of \<open>Load\<close>
  leave one way to return: an error that is there and is not \<open>ErrNotFound\<close>. Otherwise the
  slice that \<open>Load\<close> returned is executed, also beside \<open>ErrNotFound\<close>. The progress line
  printed every 1000 blocks changes nothing.
\<close>

definition replay_step :: "'s replay_env \<Rightarrow> chain \<Rightarrow> int \<Rightarrow> 's replay_state \<Rightarrow> replay_error option \<times> 's replay_state" where
  "replay_step env c ht st =
     (case Load (rp_chainrepo env) (ht + 1) of
        (chgs, err) \<Rightarrow>
          (let st1 = st\<lparr>trace := trace st @ [EvLoad (ht + 1)]\<rparr> in
           if err \<noteq> Some ErrNotFound \<and> err \<noteq> None
           then (Some (LoadChanges ht), st1)
           else
             (case executeChanges env chgs st1 of
                (Some e, st2) \<Rightarrow> (Some e, st2)
              | (None, st2) \<Rightarrow>
                  (case appendBlock env c st2 of
                     (Some e, st3) \<Rightarrow> (Some (AppendBlockFailed e), st3)
                   | (None, st3) \<Rightarrow> (None, st3)))))"

text \<open>Lines 138-178: the loop over the heights.\<close>

function replay_loop :: "'s replay_env \<Rightarrow> chain \<Rightarrow> int \<Rightarrow> int \<Rightarrow> 's replay_state \<Rightarrow> replay_error option \<times> 's replay_state" where
  "replay_loop env c ht toHeight st =
     (if ht < toHeight then
        (case replay_step env c ht st of
           (Some e, st1) \<Rightarrow> (Some e, st1)
         | (None, st1) \<Rightarrow> replay_loop env c (ht + 1) toHeight st1)
      else (None, st))"
  by pat_completeness auto
termination
  by (relation "measure (\<lambda>(env, c, ht, toHeight, st). nat (toHeight - ht))") auto

declare replay_loop.simps [simp del]

text \<open>Lines 97-109: the loop that deletes the repositories of the derived state.\<close>

fun deleteRepos :: "'s replay_env \<Rightarrow> globals \<Rightarrow> string list \<Rightarrow> io_event list \<Rightarrow> replay_error option \<times> io_event list" where
  "deleteRepos env g [] tr = (None, tr)"
| "deleteRepos env g (dbName # rest) tr =
     (let dbPath = claim_db_path g dbName;
          tr1 = tr @ [EvRemoveAll dbPath] in
      case RemoveAll env dbPath of
        Some e \<Rightarrow> (Some (DeleteRepo dbPath e), tr1)
      | None \<Rightarrow> deleteRepos env g rest tr1)"

text \<open>
  Lines 95-179, the replay command. The deferred \<open>ct.Close()\<close> runs on every return after
  the state machine was created.
\<close>

definition replay :: "globals \<Rightarrow> 's replay_env \<Rightarrow> int \<Rightarrow> int \<Rightarrow> replay_error option \<times> io_event list" where
  "replay g env fromHeight toHeight =
     (case deleteRepos env g
             [BlockRepoPebble (cfg g), NodeRepoPebble (cfg g),
              MerkleTrieRepoPebble (cfg g), TemporalRepoPebble (cfg g)] [] of
        (Some e, tr) \<Rightarrow> (Some e, tr)
      | (None, tr) \<Rightarrow>
          (let dbPath = claim_db_path g (ChainRepoPebble (cfg g));
               tr1 = tr @ [EvNewPebble dbPath] in
           case NewPebble (rp_chainrepo env) dbPath of
             Some e \<Rightarrow> (Some (OpenChainRepo e), tr1)
           | None \<Rightarrow>
               (let tr2 = tr1 @ [EvClaimtrieNew] in
                case claimtrie_New env [dataDir g, netName g] of
                  Inl e \<Rightarrow> (Some (CreateClaimtrie e), tr2)
                | Inr t \<Rightarrow>
                    (case rp_loadBlocksDB env of
                       Some e \<Rightarrow> (Some (LoadBlocksDatabase e), tr2 @ [EvCloseClaimtrie])
                     | None \<Rightarrow>
                         (case rp_loadChain env of
                            Inl e \<Rightarrow> (Some (LoadChain e), tr2 @ [EvCloseClaimtrie])
                          | Inr c \<Rightarrow>
                              (case replay_loop env c fromHeight toHeight \<lparr>ct = t, trace = tr2\<rparr> of
                                 (r, st) \<Rightarrow> (r, trace st @ [EvCloseClaimtrie])))))))"

section \<open>Properties and concrete runs\<close>

text \<open>The state an extraction ends in, whether it returned or panicked.\<close>

definition result_state :: "'v extract_result \<Rightarrow> 'v extract_state" where
  "result_state r = (case r of Inl (p, s) \<Rightarrow> s | Inr s \<Rightarrow> s)"




text \<open>
  Two extractions end alike: both return or both panic with the same panic, with the same
  Changes and the same view.
\<close>

definition same_extraction :: "'v extract_result \<Rightarrow> 'v extract_result \<Rightarrow> bool" where
  "same_extraction r1 r2 =
     (case r1 of
        Inl (p, a) \<Rightarrow>
          (case r2 of
             Inl (q, b) \<Rightarrow> p = q \<and> view a = view b \<and> changes a = changes b
           | Inr b \<Rightarrow> False)
      | Inr a \<Rightarrow>
          (case r2 of
             Inl x \<Rightarrow> False
           | Inr b \<Rightarrow> view a = view b \<and> changes a = changes b))"

text \<open>The heights \<open>Load\<close> was called with, in order.\<close>

fun loaded :: "io_event list \<Rightarrow> int list" where
  "loaded [] = []"
| "loaded (EvLoad h # evs) = h # loaded evs"
| "loaded (e # evs) = loaded evs"

text \<open>The events of the replay loop.\<close>

fun loop_event :: "io_event \<Rightarrow> bool" where
  "loop_event (EvLoad h) = True"
| "loop_event (EvChange chg) = True"
| "loop_event EvAppendBlock = True"
| "loop_event (EvBlockByHeight h) = True"
| "loop_event e = False"

text \<open>An event that neither deletes a path nor saves to the Change Log Store.\<close>

fun reads_store_only :: "io_event \<Rightarrow> bool" where
  "reads_store_only (EvRemoveAll p) = False"
| "reads_store_only (EvSave h chgs) = False"
| "reads_store_only e = True"

text \<open>The four repositories of the derived state, in the order the replay command lists them.\<close>

definition derived_repos :: "globals \<Rightarrow> string list" where
  "derived_repos g = [BlockRepoPebble (cfg g), NodeRepoPebble (cfg g),
                      MerkleTrieRepoPebble (cfg g), TemporalRepoPebble (cfg g)]"

type_synonym utxo_map = "OutPoint \<Rightarrow> UtxoEntry option"

text \<open>
  Modelled from the spec: \<open>blockchain.UtxoViewpoint\<close> and its \<open>AddTxOuts\<close> are not in the
  file. The view is the "transient lookup structure mapping outpoints to their output
  contents", and registering a transaction is to "register every output of the transaction
  into the unspent-output view". No theorem about the extractor depends on it: it serves the
  concrete runs.
\<close>

fun map_addTxOuts :: "bytes \<Rightarrow> int \<Rightarrow> nat \<Rightarrow> TxOut list \<Rightarrow> utxo_map \<Rightarrow> utxo_map" where
  "map_addTxOuts txh h i [] m = m"
| "map_addTxOuts txh h i (out # outs) m =
     map_addTxOuts txh h (Suc i) outs
       (m(\<lparr>Hash = txh, Index = of_nat i\<rparr> \<mapsto>
          \<lparr>entry_amount = Value out, entry_pkScript = PkScript out, entry_blockHeight = h\<rparr>))"

text \<open>
  A small decoder for the concrete runs: the first byte is the opcode (181 create, 182
  support, 183 update), a support or update script carries 20 bytes of claim identifier
  before the name and is malformed when it is shorter, every other script is not a claim
  script.
\<close>

definition demo_DecodeClaimScript :: "bytes \<Rightarrow> ClaimScript option \<times> decode_error option" where
  "demo_DecodeClaimScript s =
     (case s of
        [] \<Rightarrow> (None, Some ErrNotClaimScript)
      | b # rest \<Rightarrow>
          if b = 181 then (Some \<lparr>cs_Opcode = OP_CLAIMNAME, cs_Name = rest, cs_ClaimID = []\<rparr>, None)
          else if b = 182 \<or> b = 183 then
            (if length rest < 20 then (None, Some ErrInvalidClaimScript)
             else (Some \<lparr>cs_Opcode = (if b = 182 then OP_SUPPORTCLAIM else OP_UPDATECLAIM),
                         cs_Name = drop 20 rest, cs_ClaimID = take 20 rest\<rparr>, None))
          else (None, Some ErrNotClaimScript))"

definition demo_IsCoinBase :: "Tx \<Rightarrow> bool" where
  "demo_IsCoinBase tx =
     (case tx_TxIn tx of
        [i] \<Rightarrow> Index (PreviousOutPoint i) = 4294967295 \<and> Hash (PreviousOutPoint i) = []
      | _ \<Rightarrow> False)"

definition demo_extractor :: "utxo_map extractor_env" where
  "demo_extractor =
     \<lparr>NewUtxoViewpoint = Map.empty,
      AddTxOuts = (\<lambda>tx h m. map_addTxOuts (tx_Hash tx) h 0 (tx_TxOut tx) m),
      LookupEntry = (\<lambda>m op. m op),
      IsCoinBase = demo_IsCoinBase,
      DecodeClaimScript = demo_DecodeClaimScript,
      NewClaimID = (\<lambda>op. copy_ClaimID (Hash op))\<rparr>"

text \<open>
  Block 0 holds a coinbase and a transaction that creates the claim "a"; block 1 holds a
  transaction that spends that claim and updates it.
\<close>

definition demo_coinbase :: Tx where
  "demo_coinbase =
     \<lparr>tx_Hash = [192],
      tx_TxIn = [\<lparr>PreviousOutPoint = \<lparr>Hash = [], Index = 4294967295\<rparr>\<rparr>],
      tx_TxOut = [\<lparr>Value = 50, PkScript = [81]\<rparr>]\<rparr>"

definition demo_tx1 :: Tx where
  "demo_tx1 =
     \<lparr>tx_Hash = [1],
      tx_TxIn = [\<lparr>PreviousOutPoint = \<lparr>Hash = [192], Index = 0\<rparr>\<rparr>],
      tx_TxOut = [\<lparr>Value = 10, PkScript = [181, 97]\<rparr>, \<lparr>Value = 39, PkScript = [81]\<rparr>]\<rparr>"

definition demo_tx2 :: Tx where
  "demo_tx2 =
     \<lparr>tx_Hash = [2],
      tx_TxIn = [\<lparr>PreviousOutPoint = \<lparr>Hash = [1], Index = 1\<rparr>\<rparr>,
                 \<lparr>PreviousOutPoint = \<lparr>Hash = [1], Index = 0\<rparr>\<rparr>],
      tx_TxOut = [\<lparr>Value = 5, PkScript = 183 # replicate 20 7 @ [97]\<rparr>]\<rparr>"

definition demo_tx_bad :: Tx where
  "demo_tx_bad =
     \<lparr>tx_Hash = [3],
      tx_TxIn = [\<lparr>PreviousOutPoint = \<lparr>Hash = [1], Index = 1\<rparr>\<rparr>],
      tx_TxOut = [\<lparr>Value = 5, PkScript = [183, 7]\<rparr>]\<rparr>"

definition demo_block0 :: Block where
  "demo_block0 = \<lparr>block_Height = 0, Transactions = [demo_coinbase, demo_tx1], ClaimTrie = [1]\<rparr>"

definition demo_block1 :: Block where
  "demo_block1 = \<lparr>block_Height = 1, Transactions = [demo_tx2], ClaimTrie = [2]\<rparr>"

definition demo_state :: "utxo_map extract_state" where
  "demo_state = \<lparr>view = Map.empty, changes = [], events = []\<rparr>"


text \<open>
  A small state machine for the concrete runs: its commitment hash is the number of
  operations applied. The canonical hash of every block but the first is 1, so replaying
  the second stored batch diverges at height 2.
\<close>

record demo_ct =
  dct_height :: int
  dct_names :: "bytes list"

definition demo_chg1 :: Change where
  "demo_chg1 = \<lparr>Type = AddClaim, Height = 1, Name = [97], ClaimID = replicate 20 1,
                OutPoint = \<lparr>Hash = [1], Index = 0\<rparr>, Amount = 10\<rparr>"

definition demo_chg2 :: Change where
  "demo_chg2 = \<lparr>Type = AddClaim, Height = 2, Name = [98], ClaimID = replicate 20 2,
                OutPoint = \<lparr>Hash = [2], Index = 0\<rparr>, Amount = 5\<rparr>"

definition demo_chainrepo :: chainrepo where
  "demo_chainrepo =
     \<lparr>NewPebble = (\<lambda>p. None),
      Load = (\<lambda>h. if h = 1 then ([demo_chg1], None)
                   else if h = 2 then ([demo_chg2], None)
                   else if h = 5 then ([], Some ErrStore)
                   else ([], Some ErrNotFound)),
      Save = (\<lambda>h chgs. None)\<rparr>"

definition demo_chain :: chain where
  "demo_chain =
     \<lparr>BestHeight = 10,
      BlockByHeight = (\<lambda>h. if 0 \<le> h \<and> h \<le> 10
                            then Inr \<lparr>block_Height = h, Transactions = [],
                                      ClaimTrie = [if h = 0 then 0 else 1]\<rparr>
                            else Inl ''no block'')\<rparr>"

definition demo_named :: "bytes \<Rightarrow> demo_ct \<Rightarrow> error option \<times> demo_ct" where
  "demo_named name t = (None, t\<lparr>dct_names := dct_names t @ [name]\<rparr>)"

definition demo_replay_env :: "demo_ct replay_env" where
  "demo_replay_env =
     \<lparr>RemoveAll = (\<lambda>p. None),
      rp_chainrepo = demo_chainrepo,
      claimtrie_New = (\<lambda>p. Inr \<lparr>dct_height = 0, dct_names = []\<rparr>),
      rp_loadBlocksDB = None,
      rp_loadChain = Inr demo_chain,
      ct_AddClaim = (\<lambda>name op cid amt. demo_named name),
      ct_UpdateClaim = (\<lambda>name op amt cid. demo_named name),
      ct_SpendClaim = (\<lambda>name op cid. demo_named name),
      ct_AddSupport = (\<lambda>name op amt cid. demo_named name),
      ct_SpendSupport = (\<lambda>name op cid. demo_named name),
      ct_AppendBlock = (\<lambda>t. (None, t\<lparr>dct_height := dct_height t + 1\<rparr>)),
      ct_Height = dct_height,
      ct_MerkleHash = (\<lambda>t. [of_nat (length (dct_names t))])\<rparr>"

definition demo_globals :: globals where
  "demo_globals =
     \<lparr>dataDir = ''data'', netName = ''mainnet'',
      cfg = \<lparr>BlockRepoPebble = ''blocks'', NodeRepoPebble = ''nodes'',
             MerkleTrieRepoPebble = ''merkletrie'', TemporalRepoPebble = ''temporal'',
             ChainRepoPebble = ''chain''\<rparr>\<rparr>"

definition demo_convert_env :: "utxo_map convert_env" where
  "demo_convert_env =
     \<lparr>cv_loadBlocksDB = None, cv_loadChain = Inr demo_chain,
      cv_extractor = demo_extractor, cv_chainrepo = demo_chainrepo\<rparr>"

definition demo_replay_state :: "demo_ct replay_state" where
  "demo_replay_state = \<lparr>ct = \<lparr>dct_height = 0, dct_names = []\<rparr>, trace = []\<rparr>"

text \<open>
  A state after block 0: the view holds the outputs of transaction 1, and a Change and a
  call are left over from the block before.
\<close>

definition demo_state1 :: "utxo_map extract_state" where
  "demo_state1 =
     \<lparr>view = map_addTxOuts [1] 0 0 (tx_TxOut demo_tx1) Map.empty,
      changes = [demo_chg1], events = [EvLookupEntry \<lparr>Hash = [9], Index = 0\<rparr>]\<rparr>"

text \<open>A view that holds one spendable output of each kind, and one with a malformed script.\<close>

definition demo_state3 :: "utxo_map extract_state" where
  "demo_state3 =
     \<lparr>view = [\<lparr>Hash = [1], Index = 0\<rparr> \<mapsto>
                \<lparr>entry_amount = 10, entry_pkScript = [181, 97], entry_blockHeight = 0\<rparr>,
              \<lparr>Hash = [2], Index = 0\<rparr> \<mapsto>
                \<lparr>entry_amount = 5, entry_pkScript = 183 # replicate 20 7 @ [97], entry_blockHeight = 1\<rparr>,
              \<lparr>Hash = [4], Index = 0\<rparr> \<mapsto>
                \<lparr>entry_amount = 3, entry_pkScript = 182 # replicate 20 7 @ [97], entry_blockHeight = 1\<rparr>,
              \<lparr>Hash = [3], Index = 0\<rparr> \<mapsto>
                \<lparr>entry_amount = 5, entry_pkScript = [183, 7], entry_blockHeight = 1\<rparr>],
      changes = [], events = []\<rparr>"

definition demo_tx_spend_bad :: Tx where
  "demo_tx_spend_bad =
     \<lparr>tx_Hash = [5],
      tx_TxIn = [\<lparr>PreviousOutPoint = \<lparr>Hash = [3], Index = 0\<rparr>\<rparr>],
      tx_TxOut = []\<rparr>"

section \<open>Lemmas and claims\<close>

lemma result_state_simps [simp]:
  "result_state (Inl (p, s)) = s" "result_state (Inr s) = s"
  by (simp_all add: result_state_def)

lemma processTxIns_Cons_cases:
  obtains (panic) p where "processTxIn env h (view st) i = Inl p"
      "processTxIns env h (i # ins) st =
         Inl (p, st\<lparr>events := events st @ [EvLookupEntry (PreviousOutPoint i)]\<rparr>)"
  | (skip) "processTxIn env h (view st) i = Inr None"
      "processTxIns env h (i # ins) st =
         processTxIns env h ins (st\<lparr>events := events st @ [EvLookupEntry (PreviousOutPoint i)]\<rparr>)"
  | (emit) chg where "processTxIn env h (view st) i = Inr (Some chg)"
      "processTxIns env h (i # ins) st =
         processTxIns env h ins (st\<lparr>events := events st @ [EvLookupEntry (PreviousOutPoint i)],
                                        changes := changes st @ [chg]\<rparr>)"
proof (cases "processTxIn env h (view st) i")
  case (Inl p)
  then show ?thesis using panic by (simp add: Let_def)
next
  case (Inr oc)
  then show ?thesis using skip emit by (cases oc) (simp_all add: Let_def)
qed

lemma processTxOuts_Cons_cases:
  obtains (panic) p where "processTxOut env h txh n out = Inl p"
      "processTxOuts env h txh n (out # outs) st = Inl (p, st)"
  | (skip) "processTxOut env h txh n out = Inr None"
      "processTxOuts env h txh n (out # outs) st = processTxOuts env h txh (Suc n) outs st"
  | (emit) chg where "processTxOut env h txh n out = Inr (Some chg)"
      "processTxOuts env h txh n (out # outs) st =
         processTxOuts env h txh (Suc n) outs (st\<lparr>changes := changes st @ [chg]\<rparr>)"
proof (cases "processTxOut env h txh n out")
  case (Inl p)
  then show ?thesis using panic by simp
next
  case (Inr oc)
  then show ?thesis using skip emit by (cases oc) simp_all
qed


lemma processTxIns_view: "view (result_state (processTxIns env h ins st)) = view st"
proof (induction ins arbitrary: st)
  case Nil
  then show ?case by simp
next
  case (Cons i ins)
  show ?case
    by (cases rule: processTxIns_Cons_cases[of env h st i ins]) (simp_all add: Cons.IH)
qed

lemma processTxOuts_frame:
  "view (result_state (processTxOuts env h txh n outs st)) = view st \<and>
   events (result_state (processTxOuts env h txh n outs st)) = events st"
proof (induction outs arbitrary: st n)
  case Nil
  then show ?case by simp
next
  case (Cons out outs)
  show ?case
    by (cases rule: processTxOuts_Cons_cases[of env h txh n out outs st]) (simp_all add: Cons.IH)
qed

lemma processTxIns_Inr_events:
  "processTxIns env h ins st = Inr st' \<Longrightarrow>
     events st' = events st @ map (\<lambda>i. EvLookupEntry (PreviousOutPoint i)) ins"
proof (induction ins arbitrary: st)
  case Nil
  then show ?case by simp
next
  case (Cons i ins)
  show ?case
    by (cases rule: processTxIns_Cons_cases[of env h st i ins])
       (use Cons.prems in \<open>auto dest: Cons.IH\<close>)
qed

lemma processTx_view:
  "view (result_state (processTx env h tx st)) = AddTxOuts env tx h (view st)"
proof (cases "IsCoinBase env tx")
  case True
  then show ?thesis by (simp add: processTx_def Let_def)
next
  case False
  let ?st1 = "st\<lparr>view := AddTxOuts env tx h (view st), events := events st @ [EvAddTxOuts tx h]\<rparr>"
  have v: "view (result_state (processTxIns env h (tx_TxIn tx) ?st1)) = view ?st1"
    by (rule processTxIns_view)
  show ?thesis
  proof (cases "processTxIns env h (tx_TxIn tx) ?st1")
    case (Inl x)
    then show ?thesis using False v by (cases x) (simp add: processTx_def Let_def)
  next
    case (Inr st2)
    then show ?thesis
      using False v processTxOuts_frame[of env h "tx_Hash tx" 0 "tx_TxOut tx" st2]
      by (simp add: processTx_def Let_def)
  qed
qed










lemma same_extraction_simps [simp]:
  "same_extraction (Inl (p, a)) (Inl (q, b)) \<longleftrightarrow> p = q \<and> view a = view b \<and> changes a = changes b"
  "same_extraction (Inr a) (Inr b) \<longleftrightarrow> view a = view b \<and> changes a = changes b"
  "same_extraction (Inl x) (Inr b) \<longleftrightarrow> False"
  "same_extraction (Inr a) (Inl x) \<longleftrightarrow> False"
  by (auto simp: same_extraction_def split: prod.splits)






lemma processTxOuts_malformed:
  assumes "out \<in> set outs" "fst (DecodeClaimScript env (PkScript out)) = None"
    "snd (DecodeClaimScript env (PkScript out)) \<noteq> Some ErrNotClaimScript"
  shows "isl (processTxOuts env h txh n outs st)"
  using assms(1)
proof (induction outs arbitrary: st n)
  case Nil
  then show ?case by simp
next
  case (Cons o1 outs)
  show ?case
  proof (cases "o1 = out")
    case True
    have "processTxOut env h txh n out = Inl NilClaimScript"
      using assms(2,3) by (cases "DecodeClaimScript env (PkScript out)") (simp add: processTxOut_def)
    then show ?thesis using True by simp
  next
    case False
    then have "out \<in> set outs" using Cons.prems by simp
    then show ?thesis
      by (cases rule: processTxOuts_Cons_cases[of env h txh n o1 outs st])
         (simp_all add: Cons.IH)
  qed
qed

lemma processTxIns_malformed:
  assumes "i \<in> set ins" "LookupEntry env (view st) (PreviousOutPoint i) = Some e"
    "fst (DecodeClaimScript env (entry_pkScript e)) = None"
    "snd (DecodeClaimScript env (entry_pkScript e)) \<noteq> Some ErrNotClaimScript"
  shows "isl (processTxIns env h ins st)"
  using assms(1,2)
proof (induction ins arbitrary: st)
  case Nil
  then show ?case by simp
next
  case (Cons i1 ins)
  show ?case
  proof (cases "i1 = i")
    case True
    have "processTxIn env h (view st) i = Inl NilClaimScript"
      using assms(3,4) Cons.prems(2)
      by (cases "DecodeClaimScript env (entry_pkScript e)") (simp add: processTxIn_def Let_def)
    then show ?thesis using True by (simp add: Let_def)
  next
    case False
    then have "i \<in> set ins" using Cons.prems by simp
    then show ?thesis using Cons.prems(2)
      by (cases rule: processTxIns_Cons_cases[of env h st i1 ins])
         (simp_all add: Cons.IH)
  qed
qed

lemma processTxs_view:
  "processTxs env h txs st = Inr st' \<Longrightarrow>
     view st' = foldl (\<lambda>v tx. AddTxOuts env tx h v) (view st) txs"
proof (induction txs arbitrary: st)
  case Nil
  then show ?case by simp
next
  case (Cons tx txs)
  from Cons.prems obtain st1 where tx: "processTx env h tx st = Inr st1"
    and rest: "processTxs env h txs st1 = Inr st'"
    by (auto split: sum.splits)
  have "view st1 = AddTxOuts env tx h (view st)"
    using processTx_view[of env h tx st] tx by simp
  then show ?case using Cons.IH[OF rest] by simp
qed

lemma processTxs_append:
  "processTxs env h (pre @ post) st =
     (case processTxs env h pre st of Inl x \<Rightarrow> Inl x | Inr st1 \<Rightarrow> processTxs env h post st1)"
  by (induction pre arbitrary: st) (auto split: sum.splits)

lemma replay_loop_split:
  "fromHeight \<le> mid \<Longrightarrow> mid \<le> toHeight \<Longrightarrow>
   replay_loop env c fromHeight mid st0 = (None, st) \<Longrightarrow>
   replay_loop env c fromHeight toHeight st0 = replay_loop env c mid toHeight st"
proof (induction env c fromHeight mid st0 rule: replay_loop.induct)
  case (1 env c ht mid st0)
  show ?case
  proof (cases "ht < mid")
    case False
    then have "ht = mid" using "1.prems" by simp
    moreover have "st = st0" using "1.prems"(3) False by (simp add: replay_loop.simps)
    ultimately show ?thesis by simp
  next
    case True
    obtain r st1 where step: "replay_step env c ht st0 = (r, st1)" by (cases "replay_step env c ht st0")
    have r: "r = None" using "1.prems"(3) True step
      by (cases r) (simp_all add: replay_loop.simps[of env c ht mid])
    then have rest: "replay_loop env c (ht + 1) mid st1 = (None, st)"
      using "1.prems"(3) True step by (simp add: replay_loop.simps[of env c ht mid])
    have "replay_loop env c (ht + 1) toHeight st1 = replay_loop env c mid toHeight st"
      using "1.IH"[OF True step[symmetric] r _ "1.prems"(2) rest] True by simp
    moreover have "replay_loop env c ht toHeight st0 = replay_loop env c (ht + 1) toHeight st1"
      using True "1.prems"(2) step r by (simp add: replay_loop.simps[of env c ht toHeight])
    ultimately show ?thesis by simp
  qed
qed

lemma replay_step_mismatch:
  assumes "Load (rp_chainrepo env) (ht + 1) = (chgs, err)" "err = None \<or> err = Some ErrNotFound"
    "executeChanges env chgs (st\<lparr>trace := trace st @ [EvLoad (ht + 1)]\<rparr>) = (None, st2)"
    "ct_AppendBlock env (ct st2) = (None, t)"
    "BlockByHeight c (ct_Height env t) = Inr block"
    "ct_MerkleHash env t \<noteq> ClaimTrie block"
  shows "replay_step env c ht st =
     (Some (AppendBlockFailed (HashMismatched (ct_Height env t) (ClaimTrie block) (ct_MerkleHash env t))),
      \<lparr>ct = t, trace = trace st2 @ [EvAppendBlock, EvBlockByHeight (ct_Height env t)]\<rparr>)"
proof -
  have "appendBlock env c st2 =
     (Some (HashMismatched (ct_Height env t) (ClaimTrie block) (ct_MerkleHash env t)),
      \<lparr>ct = t, trace = trace st2 @ [EvAppendBlock, EvBlockByHeight (ct_Height env t)]\<rparr>)"
    using assms(4,5,6) by (simp add: appendBlock_def Let_def)
  then show ?thesis using assms(1,2,3) by (auto simp: replay_step_def Let_def)
qed

text \<open>
  Claim C1. Let the heights from \<open>fromHeight\<close> up to \<open>ht\<close> replay without error. If at \<open>ht\<close>
  the batch for \<open>ht + 1\<close> loads and all its Changes execute, \<open>AppendBlock\<close> succeeds, and the
  canonical block at the new height of the state machine records a hash other than the
  state machine's commitment hash, then replay returns the hash-mismatch error. The state
  machine it leaves is the one \<open>AppendBlock\<close> produced, and the trace ends with the read of
  that block: no batch of a later height is loaded and no later Change is executed.
\<close>

theorem replay_stops_at_hash_mismatch:
  assumes "fromHeight \<le> ht" "ht < toHeight"
    "replay_loop env c fromHeight ht st0 = (None, st)"
    "Load (rp_chainrepo env) (ht + 1) = (chgs, err)" "err = None \<or> err = Some ErrNotFound"
    "executeChanges env chgs (st\<lparr>trace := trace st @ [EvLoad (ht + 1)]\<rparr>) = (None, st2)"
    "ct_AppendBlock env (ct st2) = (None, t)"
    "BlockByHeight c (ct_Height env t) = Inr block"
    "ct_MerkleHash env t \<noteq> ClaimTrie block"
  shows "replay_loop env c fromHeight toHeight st0 =
     (Some (AppendBlockFailed (HashMismatched (ct_Height env t) (ClaimTrie block) (ct_MerkleHash env t))),
      \<lparr>ct = t, trace = trace st2 @ [EvAppendBlock, EvBlockByHeight (ct_Height env t)]\<rparr>)"
proof -
  have "replay_loop env c fromHeight toHeight st0 = replay_loop env c ht toHeight st"
    using assms(1,2,3) by (intro replay_loop_split) simp_all
  also have "\<dots> = (Some (AppendBlockFailed (HashMismatched (ct_Height env t) (ClaimTrie block) (ct_MerkleHash env t))),
      \<lparr>ct = t, trace = trace st2 @ [EvAppendBlock, EvBlockByHeight (ct_Height env t)]\<rparr>)"
    using assms(2) replay_step_mismatch[OF assms(4-9)]
    by (simp add: replay_loop.simps[of env c ht toHeight])
  finally show ?thesis .
qed

lemma loaded_append [simp]: "loaded (xs @ ys) = loaded xs @ loaded ys"
  by (induction xs rule: loaded.induct) simp_all

lemma executeChanges_trace:
  "\<exists>evs. trace (snd (executeChanges env chgs st)) = trace st @ evs \<and> loaded evs = [] \<and>
         list_all loop_event evs"
proof (induction chgs arbitrary: st)
  case Nil
  then show ?case by simp
next
  case (Cons chg chgs)
  obtain err t where ex: "executeChange env chg (ct st) = (err, t)"
    by (cases "executeChange env chg (ct st)")
  let ?st1 = "\<lparr>ct = t, trace = trace st @ [EvChange chg]\<rparr>"
  show ?case
  proof (cases err)
    case (Some e)
    then show ?thesis using ex by (intro exI[of _ "[EvChange chg]"]) simp
  next
    case None
    from Cons.IH[of ?st1] obtain evs where
      "trace (snd (executeChanges env chgs ?st1)) = trace ?st1 @ evs" "loaded evs = []"
      "list_all loop_event evs" by blast
    then show ?thesis using ex None
      by (intro exI[of _ "EvChange chg # evs"]) simp
  qed
qed

lemma appendBlock_trace:
  "\<exists>evs. trace (snd (appendBlock env c st)) = trace st @ evs \<and> loaded evs = [] \<and>
         list_all loop_event evs"
proof -
  obtain err t where ab: "ct_AppendBlock env (ct st) = (err, t)"
    by (cases "ct_AppendBlock env (ct st)")
  show ?thesis
  proof (cases err)
    case (Some e)
    then show ?thesis using ab
      by (intro exI[of _ "[EvAppendBlock]"]) (simp add: appendBlock_def)
  next
    case None
    then show ?thesis using ab
      by (intro exI[of _ "[EvAppendBlock, EvBlockByHeight (ct_Height env t)]"])
         (simp add: appendBlock_def Let_def split: sum.splits)
  qed
qed

lemma replay_step_trace:
  "\<exists>evs. trace (snd (replay_step env c ht st)) = trace st @ evs \<and> loaded evs = [ht + 1] \<and>
         list_all loop_event evs"
proof -
  obtain chgs err where ld: "Load (rp_chainrepo env) (ht + 1) = (chgs, err)"
    by (cases "Load (rp_chainrepo env) (ht + 1)")
  let ?st1 = "st\<lparr>trace := trace st @ [EvLoad (ht + 1)]\<rparr>"
  show ?thesis
  proof (cases "err \<noteq> Some ErrNotFound \<and> err \<noteq> None")
    case True
    then show ?thesis using ld
      by (intro exI[of _ "[EvLoad (ht + 1)]"]) (simp add: replay_step_def)
  next
    case False
    obtain r st2 where ex: "executeChanges env chgs ?st1 = (r, st2)"
      by (cases "executeChanges env chgs ?st1")
    from executeChanges_trace[of env chgs ?st1] ex obtain e1 where e1:
      "trace st2 = trace ?st1 @ e1" "loaded e1 = []" "list_all loop_event e1" by auto
    show ?thesis
    proof (cases r)
      case (Some e)
      then have "replay_step env c ht st = (Some e, st2)"
        using ld False ex by (auto simp: replay_step_def Let_def)
      then show ?thesis using e1
        by (intro exI[of _ "EvLoad (ht + 1) # e1"]) simp
    next
      case None
      obtain a st3 where ab: "appendBlock env c st2 = (a, st3)"
        by (cases "appendBlock env c st2")
      from appendBlock_trace[of env c st2] ab obtain e2 where e2:
        "trace st3 = trace st2 @ e2" "loaded e2 = []" "list_all loop_event e2" by auto
      have "snd (replay_step env c ht st) = st3"
        using ld False ex None ab by (cases a) (auto simp: replay_step_def Let_def)
      then show ?thesis using e1 e2
        by (intro exI[of _ "EvLoad (ht + 1) # e1 @ e2"]) simp
    qed
  qed
qed

lemma replay_loop_trace:
  "\<exists>evs k. trace (snd (replay_loop env c ht toHeight st)) = trace st @ evs \<and>
      list_all loop_event evs \<and> ht \<le> k \<and> k \<le> max ht toHeight \<and>
      loaded evs = [ht + 1..k] \<and>
      (fst (replay_loop env c ht toHeight st) = None \<longrightarrow> k = max ht toHeight)"
proof (induction env c ht toHeight st rule: replay_loop.induct)
  case (1 env c ht toHeight st)
  show ?case
  proof (cases "ht < toHeight")
    case False
    then show ?thesis
      by (intro exI[of _ "[]"] exI[of _ ht]) (simp add: replay_loop.simps[of env c ht toHeight])
  next
    case True
    obtain r st1 where step: "replay_step env c ht st = (r, st1)"
      by (cases "replay_step env c ht st")
    from replay_step_trace[of env c ht st] step obtain e1 where e1:
      "trace st1 = trace st @ e1" "loaded e1 = [ht + 1]" "list_all loop_event e1" by auto
    show ?thesis
    proof (cases r)
      case (Some e)
      then have "replay_loop env c ht toHeight st = (Some e, st1)"
        using True step by (simp add: replay_loop.simps[of env c ht toHeight])
      then show ?thesis using e1 True
        by (intro exI[of _ e1] exI[of _ "ht + 1"]) simp
    next
      case None
      have eq: "replay_loop env c ht toHeight st = replay_loop env c (ht + 1) toHeight st1"
        using True step None by (simp add: replay_loop.simps[of env c ht toHeight])
      from "1.IH"[OF True step[symmetric] None] obtain e2 k where e2:
        "trace (snd (replay_loop env c (ht + 1) toHeight st1)) = trace st1 @ e2"
        "list_all loop_event e2" "ht + 1 \<le> k" "k \<le> max (ht + 1) toHeight"
        "loaded e2 = [ht + 1 + 1..k]"
        "fst (replay_loop env c (ht + 1) toHeight st1) = None \<longrightarrow> k = max (ht + 1) toHeight"
        by (elim exE conjE) (rule that)
      have "[ht + 1..k] = (ht + 1) # [ht + 1 + 1..k]"
        using e2(3) by (simp add: upto_rec1)
      then show ?thesis using e1 e2 True eq
        by (intro exI[of _ "e1 @ e2"] exI[of _ k]) (simp add: max_def)
    qed
  qed
qed

lemma loop_event_reads_store_only: "loop_event e \<Longrightarrow> reads_store_only e"
  by (cases e) simp_all

lemma deleteRepos_trace:
  "\<exists>k\<le>length names. snd (deleteRepos env g names tr) =
        tr @ map (\<lambda>n. EvRemoveAll (claim_db_path g n)) (take k names)"
proof (induction names arbitrary: tr)
  case Nil
  then show ?case by simp
next
  case (Cons n names)
  show ?case
  proof (cases "RemoveAll env (claim_db_path g n)")
    case (Some e)
    then show ?thesis by (intro exI[of _ 1]) (simp add: Let_def)
  next
    case None
    from Cons.IH[of "tr @ [EvRemoveAll (claim_db_path g n)]"] obtain k where
      "k \<le> length names"
      "snd (deleteRepos env g names (tr @ [EvRemoveAll (claim_db_path g n)])) =
         (tr @ [EvRemoveAll (claim_db_path g n)]) @
           map (\<lambda>n. EvRemoveAll (claim_db_path g n)) (take k names)" by blast
    then show ?thesis using None by (intro exI[of _ "Suc k"]) (simp add: Let_def)
  qed
qed

lemma replay_trace:
  "\<exists>k rest. k \<le> 4 \<and>
     snd (replay g env fromHeight toHeight) =
       map (\<lambda>n. EvRemoveAll (claim_db_path g n)) (take k (derived_repos g)) @ rest \<and>
     list_all reads_store_only rest"
proof -
  let ?names = "derived_repos g"
  obtain r tr where del: "deleteRepos env g ?names [] = (r, tr)"
    by (cases "deleteRepos env g ?names []")
  have len: "length ?names = 4" by (simp add: derived_repos_def)
  from deleteRepos_trace[of ?names env g "[]"] del len obtain k where k: "k \<le> 4"
    "tr = map (\<lambda>n. EvRemoveAll (claim_db_path g n)) (take k ?names)"
    by auto
  have unf: "replay g env fromHeight toHeight =
     (case (r, tr) of
        (Some e, tr) \<Rightarrow> (Some e, tr)
      | (None, tr) \<Rightarrow>
          (let dbPath = claim_db_path g (ChainRepoPebble (cfg g));
               tr1 = tr @ [EvNewPebble dbPath] in
           case NewPebble (rp_chainrepo env) dbPath of
             Some e \<Rightarrow> (Some (OpenChainRepo e), tr1)
           | None \<Rightarrow>
               (let tr2 = tr1 @ [EvClaimtrieNew] in
                case claimtrie_New env [dataDir g, netName g] of
                  Inl e \<Rightarrow> (Some (CreateClaimtrie e), tr2)
                | Inr t \<Rightarrow>
                    (case rp_loadBlocksDB env of
                       Some e \<Rightarrow> (Some (LoadBlocksDatabase e), tr2 @ [EvCloseClaimtrie])
                     | None \<Rightarrow>
                         (case rp_loadChain env of
                            Inl e \<Rightarrow> (Some (LoadChain e), tr2 @ [EvCloseClaimtrie])
                          | Inr c \<Rightarrow>
                              (case replay_loop env c fromHeight toHeight \<lparr>ct = t, trace = tr2\<rparr> of
                                 (r, st) \<Rightarrow> (r, trace st @ [EvCloseClaimtrie])))))))"
    unfolding replay_def derived_repos_def[symmetric] del by (rule refl)
  have "\<exists>rest. snd (replay g env fromHeight toHeight) = tr @ rest \<and> list_all reads_store_only rest"
  proof (cases r)
    case (Some e)
    then show ?thesis unfolding unf by simp
  next
    case None
    let ?p = "claim_db_path g (ChainRepoPebble (cfg g))"
    show ?thesis
    proof (cases "NewPebble (rp_chainrepo env) ?p")
      case (Some e)
      then show ?thesis unfolding unf using None by (simp add: Let_def)
    next
      case np: None
      show ?thesis
      proof (cases "claimtrie_New env [dataDir g, netName g]")
        case (Inl e)
        then show ?thesis unfolding unf using None np by (simp add: Let_def)
      next
        case (Inr t)
        show ?thesis
        proof (cases "rp_loadBlocksDB env")
          case (Some e)
          then show ?thesis unfolding unf using None np Inr by (simp add: Let_def)
        next
          case db: None
          show ?thesis
          proof (cases "rp_loadChain env")
            case (Inl e)
            then show ?thesis unfolding unf using None np Inr db by (simp add: Let_def)
          next
            case c: (Inr c)
            let ?st = "\<lparr>ct = t, trace = tr @ [EvNewPebble ?p, EvClaimtrieNew]\<rparr>"
            from replay_loop_trace[of env c fromHeight toHeight ?st] obtain evs where evs:
              "trace (snd (replay_loop env c fromHeight toHeight ?st)) = trace ?st @ evs"
              "list_all loop_event evs" by blast
            have "list_all reads_store_only evs"
              using evs(2) by (auto simp: list_all_iff intro: loop_event_reads_store_only)
            then show ?thesis unfolding unf using None np Inr db c evs(1)
              by (cases "replay_loop env c fromHeight toHeight ?st") (simp add: Let_def)
          qed
        qed
      qed
    qed
  qed
  then show ?thesis using k by blast
qed







lemma isl_processTxs_Cons:
  "isl (processTx env h tx st) \<Longrightarrow> isl (processTxs env h (tx # post) st)"
  by (cases "processTx env h tx st") simp_all

lemma isl_processTxs_mid:
  assumes "\<And>st1. processTxs env h pre st = Inr st1 \<Longrightarrow> isl (processTx env h tx st1)"
  shows "isl (processTxs env h (pre @ tx # post) st)"
proof (cases "processTxs env h pre st")
  case (Inl x)
  then show ?thesis by (simp add: processTxs_append)
next
  case (Inr st1)
  then show ?thesis using isl_processTxs_Cons[OF assms[OF Inr], of post]
    by (simp add: processTxs_append)
qed

lemma processTx_malformed_output:
  assumes "\<not> IsCoinBase env tx" "out \<in> set (tx_TxOut tx)"
    "fst (DecodeClaimScript env (PkScript out)) = None"
    "snd (DecodeClaimScript env (PkScript out)) \<noteq> Some ErrNotClaimScript"
  shows "isl (processTx env h tx st)"
proof -
  let ?st1 = "st\<lparr>view := AddTxOuts env tx h (view st), events := events st @ [EvAddTxOuts tx h]\<rparr>"
  show ?thesis
  proof (cases "processTxIns env h (tx_TxIn tx) ?st1")
    case (Inl x)
    then show ?thesis using assms(1) by (simp add: processTx_def Let_def)
  next
    case (Inr st2)
    then show ?thesis
      using assms(1) processTxOuts_malformed[OF assms(2,3,4), of h "tx_Hash tx" 0 st2]
      by (simp add: processTx_def Let_def)
  qed
qed

lemma processTx_malformed_input:
  assumes "\<not> IsCoinBase env tx" "i \<in> set (tx_TxIn tx)"
    "LookupEntry env (AddTxOuts env tx h (view st)) (PreviousOutPoint i) = Some e"
    "fst (DecodeClaimScript env (entry_pkScript e)) = None"
    "snd (DecodeClaimScript env (entry_pkScript e)) \<noteq> Some ErrNotClaimScript"
  shows "isl (processTx env h tx st)"
proof -
  let ?st1 = "st\<lparr>view := AddTxOuts env tx h (view st), events := events st @ [EvAddTxOuts tx h]\<rparr>"
  have "isl (processTxIns env h (tx_TxIn tx) ?st1)"
    using assms(3) by (intro processTxIns_malformed[OF assms(2) _ assms(4,5)]) simp
  then show ?thesis using assms(1)
    by (cases "processTxIns env h (tx_TxIn tx) ?st1") (simp_all add: processTx_def Let_def)
qed

text \<open>
  Claim C7. A script for which the decoder answers \<open>ErrNotClaimScript\<close> is skipped, on the
  input side and on the output side: the loop goes on with the next element and no Change
  is added. A script for which the decoder answers with another error and no claim script
  makes the extraction of the block panic, for an output of a non-coinbase transaction as
  for an output that one of its inputs spends; a block whose extraction panics sends no
  batch, and the stage ends.
\<close>

theorem claim_script_decode_outcomes:
  "(LookupEntry env (view st) (PreviousOutPoint txIn) = Some e \<and>
    snd (DecodeClaimScript env (entry_pkScript e)) = Some ErrNotClaimScript \<longrightarrow>
      processTxIns env h (txIn # ins) st =
        processTxIns env h ins (st\<lparr>events := events st @ [EvLookupEntry (PreviousOutPoint txIn)]\<rparr>)) \<and>
   (snd (DecodeClaimScript env (PkScript txOut)) = Some ErrNotClaimScript \<longrightarrow>
      processTxOuts env h txh n (txOut # outs) st = processTxOuts env h txh (Suc n) outs st) \<and>
   (Transactions b = pre @ tx # post \<and> \<not> IsCoinBase env tx \<and> bad \<in> set (tx_TxOut tx) \<and>
    fst (DecodeClaimScript env (PkScript bad)) = None \<and>
    snd (DecodeClaimScript env (PkScript bad)) \<noteq> Some ErrNotClaimScript \<longrightarrow>
      isl (extractBlock env b st0)) \<and>
   (Transactions b = pre @ tx # post \<and> \<not> IsCoinBase env tx \<and> spent \<in> set (tx_TxIn tx) \<and>
    LookupEntry env (foldl (\<lambda>v t. AddTxOuts env t (block_Height b) v) (view st0) (pre @ [tx]))
      (PreviousOutPoint spent) = Some e' \<and>
    fst (DecodeClaimScript env (entry_pkScript e')) = None \<and>
    snd (DecodeClaimScript env (entry_pkScript e')) \<noteq> Some ErrNotClaimScript \<longrightarrow>
      isl (extractBlock env b st0)) \<and>
   (isl (extractBlock env b st0) \<longrightarrow>
      changesChan (processBlock_loop env (b # blocks) st0 chan k) = chan \<and>
      crashed (processBlock_loop env (b # blocks) st0 chan k) \<noteq> None)"
proof (intro conjI impI)
  assume "LookupEntry env (view st) (PreviousOutPoint txIn) = Some e \<and>
    snd (DecodeClaimScript env (entry_pkScript e)) = Some ErrNotClaimScript"
  then have "processTxIn env h (view st) txIn = Inr None"
    by (cases "DecodeClaimScript env (entry_pkScript e)") (simp add: processTxIn_def Let_def)
  then show "processTxIns env h (txIn # ins) st =
        processTxIns env h ins (st\<lparr>events := events st @ [EvLookupEntry (PreviousOutPoint txIn)]\<rparr>)"
    by (simp add: Let_def)
next
  assume "snd (DecodeClaimScript env (PkScript txOut)) = Some ErrNotClaimScript"
  then have "processTxOut env h txh n txOut = Inr None"
    by (cases "DecodeClaimScript env (PkScript txOut)") (simp add: processTxOut_def)
  then show "processTxOuts env h txh n (txOut # outs) st = processTxOuts env h txh (Suc n) outs st"
    by simp
next
  assume a: "Transactions b = pre @ tx # post \<and> \<not> IsCoinBase env tx \<and> bad \<in> set (tx_TxOut tx) \<and>
    fst (DecodeClaimScript env (PkScript bad)) = None \<and>
    snd (DecodeClaimScript env (PkScript bad)) \<noteq> Some ErrNotClaimScript"
  then have "isl (processTxs env (block_Height b) (pre @ tx # post) (st0\<lparr>changes := []\<rparr>))"
    by (intro isl_processTxs_mid processTx_malformed_output[of env tx bad]) simp_all
  then show "isl (extractBlock env b st0)" using a by (simp add: extractBlock_def)
next
  assume a: "Transactions b = pre @ tx # post \<and> \<not> IsCoinBase env tx \<and> spent \<in> set (tx_TxIn tx) \<and>
    LookupEntry env (foldl (\<lambda>v t. AddTxOuts env t (block_Height b) v) (view st0) (pre @ [tx]))
      (PreviousOutPoint spent) = Some e' \<and>
    fst (DecodeClaimScript env (entry_pkScript e')) = None \<and>
    snd (DecodeClaimScript env (entry_pkScript e')) \<noteq> Some ErrNotClaimScript"
  have "isl (processTxs env (block_Height b) (pre @ tx # post) (st0\<lparr>changes := []\<rparr>))"
  proof (rule isl_processTxs_mid)
    fix st1 assume "processTxs env (block_Height b) pre (st0\<lparr>changes := []\<rparr>) = Inr st1"
    from processTxs_view[OF this]
    have "AddTxOuts env tx (block_Height b) (view st1) =
            foldl (\<lambda>v t. AddTxOuts env t (block_Height b) v) (view st0) (pre @ [tx])" by simp
    then show "isl (processTx env (block_Height b) tx st1)"
      using a by (intro processTx_malformed_input[of env tx spent _ _ e']) simp_all
  qed
  then show "isl (extractBlock env b st0)" using a by (simp add: extractBlock_def)
next
  assume "isl (extractBlock env b st0)"
  then obtain p s where "extractBlock env b st0 = Inl (p, s)"
    by (cases "extractBlock env b st0") auto
  then show "changesChan (processBlock_loop env (b # blocks) st0 chan k) = chan"
    "crashed (processBlock_loop env (b # blocks) st0 chan k) \<noteq> None" by simp_all
qed

text \<open>
  Claim C3. For an input whose previous output is in the view and carries a claim script,
  the extractor appends one Change for the spent outpoint, classified by the opcode: a
  create opcode gives SpendClaim with the identifier derived from the spent outpoint, an
  update opcode gives SpendClaim and a support opcode gives SpendSupport, both with the
  bytes of the script's identifier copied into the 20-byte field, which is the script's
  identifier itself when that has the 20 bytes of a claim identifier.
\<close>

theorem spend_classified_by_opcode:
  assumes "LookupEntry env (view st) (PreviousOutPoint txIn) = Some e"
    and "DecodeClaimScript env (entry_pkScript e) = (Some cs, err)"
    and "err \<noteq> Some ErrNotClaimScript"
  shows "\<exists>chg. processTxIns env h (txIn # ins) st =
            processTxIns env h ins
              (st\<lparr>events := events st @ [EvLookupEntry (PreviousOutPoint txIn)],
                  changes := changes st @ [chg]\<rparr>) \<and>
          Height chg = h \<and> Name chg = cs_Name cs \<and> OutPoint chg = PreviousOutPoint txIn \<and>
          (cs_Opcode cs = OP_CLAIMNAME \<longrightarrow>
             Type chg = SpendClaim \<and> ClaimID chg = NewClaimID env (PreviousOutPoint txIn)) \<and>
          (cs_Opcode cs = OP_UPDATECLAIM \<longrightarrow>
             Type chg = SpendClaim \<and> ClaimID chg = copy_ClaimID (cs_ClaimID cs) \<and>
             (length (cs_ClaimID cs) = 20 \<longrightarrow> ClaimID chg = cs_ClaimID cs)) \<and>
          (cs_Opcode cs = OP_SUPPORTCLAIM \<longrightarrow>
             Type chg = SpendSupport \<and> ClaimID chg = copy_ClaimID (cs_ClaimID cs) \<and>
             (length (cs_ClaimID cs) = 20 \<longrightarrow> ClaimID chg = cs_ClaimID cs))"
proof -
  let ?chg = "spendChange env h (PreviousOutPoint txIn) cs"
  have "processTxIn env h (view st) txIn = Inr (Some ?chg)"
    using assms by (simp add: processTxIn_def Let_def)
  then have "processTxIns env h (txIn # ins) st =
            processTxIns env h ins
              (st\<lparr>events := events st @ [EvLookupEntry (PreviousOutPoint txIn)],
                  changes := changes st @ [?chg]\<rparr>)"
    by (simp add: Let_def)
  moreover have "length (cs_ClaimID cs) = 20 \<Longrightarrow> copy_ClaimID (cs_ClaimID cs) = cs_ClaimID cs"
    by (simp add: copy_ClaimID_def)
  ultimately show ?thesis
    by (intro exI[of _ ?chg]) (cases "cs_Opcode cs"; simp add: spendChange_def)
qed


text \<open>
  Claim C4. At a step \<open>ht\<close> below \<open>toHeight\<close> the loop loads the batch for \<open>ht + 1\<close>. When the
  store answers not-found (with no Changes) nothing is executed: the state machine is
  advanced and checked, and replay goes on with the next height. When the store answers
  with another error, replay returns the load error at once, the state machine untouched.
  The heights loaded by a run are \<open>ht + 1\<close>, \<open>ht + 2\<close>, ... in order, up to \<open>toHeight\<close> when the
  run ends without error.
\<close>

theorem replay_load_outcomes:
  "(ht < toHeight \<and> Load (rp_chainrepo env) (ht + 1) = ([], Some ErrNotFound) \<longrightarrow>
      replay_loop env c ht toHeight st =
        (case appendBlock env c (st\<lparr>trace := trace st @ [EvLoad (ht + 1)]\<rparr>) of
           (Some e, st3) \<Rightarrow> (Some (AppendBlockFailed e), st3)
         | (None, st3) \<Rightarrow> replay_loop env c (ht + 1) toHeight st3)) \<and>
   (ht < toHeight \<and> snd (Load (rp_chainrepo env) (ht + 1)) = Some ErrStore \<longrightarrow>
      replay_loop env c ht toHeight st =
        (Some (LoadChanges ht), st\<lparr>trace := trace st @ [EvLoad (ht + 1)]\<rparr>)) \<and>
   (\<exists>k. ht \<le> k \<and> k \<le> max ht toHeight \<and>
        loaded (trace (snd (replay_loop env c ht toHeight st))) = loaded (trace st) @ [ht + 1..k] \<and>
        (fst (replay_loop env c ht toHeight st) = None \<longrightarrow> k = max ht toHeight))"
proof (intro conjI impI)
  assume a: "ht < toHeight \<and> Load (rp_chainrepo env) (ht + 1) = ([], Some ErrNotFound)"
  let ?st1 = "st\<lparr>trace := trace st @ [EvLoad (ht + 1)]\<rparr>"
  obtain r st3 where ab: "appendBlock env c ?st1 = (r, st3)" by (cases "appendBlock env c ?st1")
  have "replay_step env c ht st = (map_option AppendBlockFailed r, st3)"
    using a ab by (cases r) (simp_all add: replay_step_def Let_def)
  then show "replay_loop env c ht toHeight st =
        (case appendBlock env c ?st1 of
           (Some e, st3) \<Rightarrow> (Some (AppendBlockFailed e), st3)
         | (None, st3) \<Rightarrow> replay_loop env c (ht + 1) toHeight st3)"
    using a ab by (cases r) (simp_all add: replay_loop.simps[of env c ht toHeight])
next
  assume a: "ht < toHeight \<and> snd (Load (rp_chainrepo env) (ht + 1)) = Some ErrStore"
  then have "replay_step env c ht st = (Some (LoadChanges ht), st\<lparr>trace := trace st @ [EvLoad (ht + 1)]\<rparr>)"
    by (cases "Load (rp_chainrepo env) (ht + 1)") (simp add: replay_step_def Let_def)
  then show "replay_loop env c ht toHeight st =
        (Some (LoadChanges ht), st\<lparr>trace := trace st @ [EvLoad (ht + 1)]\<rparr>)"
    using a by (simp add: replay_loop.simps[of env c ht toHeight])
next
  from replay_loop_trace[of env c ht toHeight st]
  show "\<exists>k. ht \<le> k \<and> k \<le> max ht toHeight \<and>
        loaded (trace (snd (replay_loop env c ht toHeight st))) = loaded (trace st) @ [ht + 1..k] \<and>
        (fst (replay_loop env c ht toHeight st) = None \<longrightarrow> k = max ht toHeight)"
    by (elim exE conjE) auto
qed

text \<open>
  Claim C9. What the replay command does starts with deletions of the four repositories of
  the derived state, in order (fewer when one fails); nothing after them deletes a path or
  saves to the Change Log Store, no event of the whole run is a save, and when the path of
  the Change Log Store is none of the four, it is never deleted.
\<close>

theorem replay_never_writes_change_log:
  "(\<exists>k rest. k \<le> 4 \<and>
      snd (replay g env fromHeight toHeight) =
        map (\<lambda>n. EvRemoveAll (claim_db_path g n)) (take k (derived_repos g)) @ rest \<and>
      list_all reads_store_only rest) \<and>
   (ChainRepoPebble (cfg g) \<notin> set (derived_repos g) \<longrightarrow>
      EvRemoveAll (claim_db_path g (ChainRepoPebble (cfg g))) \<notin> set (snd (replay g env fromHeight toHeight))) \<and>
   (\<forall>h chgs. EvSave h chgs \<notin> set (snd (replay g env fromHeight toHeight)))"
proof -
  from replay_trace[of g env fromHeight toHeight] obtain k rest where kr: "k \<le> 4"
    "snd (replay g env fromHeight toHeight) =
        map (\<lambda>n. EvRemoveAll (claim_db_path g n)) (take k (derived_repos g)) @ rest"
    "list_all reads_store_only rest" by blast
  have rest: "e \<in> set rest \<Longrightarrow> reads_store_only e" for e
    using kr(3) by (simp add: list_all_iff)
  have 1: "EvRemoveAll (claim_db_path g (ChainRepoPebble (cfg g))) \<notin> set (snd (replay g env fromHeight toHeight))"
    if "ChainRepoPebble (cfg g) \<notin> set (derived_repos g)"
  proof
    assume "EvRemoveAll (claim_db_path g (ChainRepoPebble (cfg g))) \<in> set (snd (replay g env fromHeight toHeight))"
    then consider n where "n \<in> set (take k (derived_repos g))"
        "claim_db_path g n = claim_db_path g (ChainRepoPebble (cfg g))"
      | "EvRemoveAll (claim_db_path g (ChainRepoPebble (cfg g))) \<in> set rest"
      unfolding kr(2) by auto
    then show False
    proof cases
      case 1
      then have "n = ChainRepoPebble (cfg g)" by (simp add: claim_db_path_def)
      then show False using 1(1) that by (auto dest: in_set_takeD)
    next
      case 2
      from rest[OF this] show False by simp
    qed
  qed
  have 2: "EvSave h chgs \<notin> set (snd (replay g env fromHeight toHeight))" for h chgs
  proof
    assume "EvSave h chgs \<in> set (snd (replay g env fromHeight toHeight))"
    then have "EvSave h chgs \<in> set rest" unfolding kr(2) by auto
    from rest[OF this] show False by simp
  qed
  show ?thesis using kr 1 2 by blast
qed

lemmas demo_simps =
  demo_extractor_def demo_DecodeClaimScript_def demo_IsCoinBase_def demo_coinbase_def
  demo_tx1_def demo_tx2_def demo_tx_bad_def demo_block0_def demo_block1_def demo_state_def
  demo_state1_def demo_chg1_def demo_chg2_def demo_chainrepo_def demo_chain_def demo_named_def
  demo_replay_env_def demo_globals_def demo_convert_env_def demo_replay_state_def
  demo_state3_def demo_tx_spend_bad_def


lemmas replay_simps =
  replay_step_def executeChange_def appendBlock_def replay_loop.simps Let_def

text \<open>
  Claim C5. The convert command never reads its flag: the fetch stage is bounded by the
  constant 200000 and the chain tip. With flag 5 on a chain whose tip is 10, it reads the
  heights 0 to 9.
\<close>

theorem convert_ignores_height_flag:
  "map_sum id (\<lambda>r. reads (fetched r)) (convert demo_globals demo_convert_env 5) =
     Inr [0, 1, 2, 3, 4, 5, 6, 7, 8, 9]"
  by (simp add: convert_def getBlock_def getBlock_loop.simps demo_simps Let_def)



theorem replay_stops_at_hash_mismatch_witness:
  "replay_loop demo_replay_env demo_chain 0 3 demo_replay_state =
     (Some (AppendBlockFailed (HashMismatched 2 [1] [2])),
      \<lparr>ct = \<lparr>dct_height = 2, dct_names = [[97], [98]]\<rparr>,
       trace = [EvLoad 1, EvChange demo_chg1, EvAppendBlock, EvBlockByHeight 1,
                EvLoad 2, EvChange demo_chg2, EvAppendBlock, EvBlockByHeight 2]\<rparr>)"
proof -
  let ?st = "\<lparr>ct = \<lparr>dct_height = 1, dct_names = [[97]]\<rparr>,
              trace = [EvLoad 1, EvChange demo_chg1, EvAppendBlock, EvBlockByHeight 1]\<rparr>"
  let ?st2 = "\<lparr>ct = \<lparr>dct_height = 1, dct_names = [[97], [98]]\<rparr>,
              trace = [EvLoad 1, EvChange demo_chg1, EvAppendBlock, EvBlockByHeight 1,
                       EvLoad 2, EvChange demo_chg2]\<rparr>"
  let ?t = "\<lparr>dct_height = 2, dct_names = [[97], [98]]\<rparr>"
  let ?block = "\<lparr>block_Height = 2, Transactions = [], ClaimTrie = [1]\<rparr>"
  have 1: "(0::int) \<le> 1" and 2: "(1::int) < 3" by simp_all
  have 3: "replay_loop demo_replay_env demo_chain 0 1 demo_replay_state = (None, ?st)"
    by (simp add: demo_simps replay_simps)
  have 4: "Load (rp_chainrepo demo_replay_env) (1 + 1) = ([demo_chg2], None)"
    by (simp add: demo_replay_env_def demo_chainrepo_def)
  have 5: "None = None \<or> None = Some ErrNotFound" by simp
  have 6: "executeChanges demo_replay_env [demo_chg2] (?st\<lparr>trace := trace ?st @ [EvLoad (1 + 1)]\<rparr>) = (None, ?st2)"
    by (simp add: demo_simps replay_simps)
  have 7: "ct_AppendBlock demo_replay_env (ct ?st2) = (None, ?t)"
    by (simp add: demo_simps)
  have 8: "BlockByHeight demo_chain (ct_Height demo_replay_env ?t) = Inr ?block"
    by (simp add: demo_simps)
  have 9: "ct_MerkleHash demo_replay_env ?t \<noteq> ClaimTrie ?block"
    by (simp add: demo_simps)
  from replay_stops_at_hash_mismatch[OF 1 2 3 4 5 6 7 8 9]
  show ?thesis by (simp add: demo_replay_env_def)
qed


theorem spend_classified_by_opcode_witness:
  "(\<exists>chg. processTxIns demo_extractor 7 [\<lparr>PreviousOutPoint = \<lparr>Hash = [1], Index = 0\<rparr>\<rparr>] demo_state3 =
           Inr (demo_state3\<lparr>events := [EvLookupEntry \<lparr>Hash = [1], Index = 0\<rparr>], changes := [chg]\<rparr>) \<and>
         Type chg = SpendClaim \<and> ClaimID chg = NewClaimID demo_extractor \<lparr>Hash = [1], Index = 0\<rparr>) \<and>
   (\<exists>chg. processTxIns demo_extractor 7 [\<lparr>PreviousOutPoint = \<lparr>Hash = [2], Index = 0\<rparr>\<rparr>] demo_state3 =
           Inr (demo_state3\<lparr>events := [EvLookupEntry \<lparr>Hash = [2], Index = 0\<rparr>], changes := [chg]\<rparr>) \<and>
         Type chg = SpendClaim \<and> ClaimID chg = replicate 20 7) \<and>
   (\<exists>chg. processTxIns demo_extractor 7 [\<lparr>PreviousOutPoint = \<lparr>Hash = [4], Index = 0\<rparr>\<rparr>] demo_state3 =
           Inr (demo_state3\<lparr>events := [EvLookupEntry \<lparr>Hash = [4], Index = 0\<rparr>], changes := [chg]\<rparr>) \<and>
         Type chg = SpendSupport \<and> ClaimID chg = replicate 20 7)"
proof (intro conjI)
  let ?i = "\<lparr>PreviousOutPoint = \<lparr>Hash = [1], Index = 0\<rparr>\<rparr>"
  let ?e = "\<lparr>entry_amount = 10, entry_pkScript = [181, 97], entry_blockHeight = 0\<rparr>"
  let ?cs = "\<lparr>cs_Opcode = OP_CLAIMNAME, cs_Name = [97], cs_ClaimID = []\<rparr>"
  have 1: "LookupEntry demo_extractor (view demo_state3) (PreviousOutPoint ?i) = Some ?e"
    by (simp add: demo_simps)
  have 2: "DecodeClaimScript demo_extractor (entry_pkScript ?e) = (Some ?cs, None)"
    by (simp add: demo_simps)
  have 3: "None \<noteq> Some ErrNotClaimScript" by simp
  from spend_classified_by_opcode[OF 1 2 3, of 7 "[]"]
  show "\<exists>chg. processTxIns demo_extractor 7 [?i] demo_state3 =
           Inr (demo_state3\<lparr>events := [EvLookupEntry \<lparr>Hash = [1], Index = 0\<rparr>], changes := [chg]\<rparr>) \<and>
         Type chg = SpendClaim \<and> ClaimID chg = NewClaimID demo_extractor \<lparr>Hash = [1], Index = 0\<rparr>"
    by (auto simp: demo_state3_def)
next
  let ?i = "\<lparr>PreviousOutPoint = \<lparr>Hash = [2], Index = 0\<rparr>\<rparr>"
  let ?e = "\<lparr>entry_amount = 5, entry_pkScript = 183 # replicate 20 7 @ [97], entry_blockHeight = 1\<rparr>"
  let ?cs = "\<lparr>cs_Opcode = OP_UPDATECLAIM, cs_Name = [97], cs_ClaimID = replicate 20 7\<rparr>"
  have 1: "LookupEntry demo_extractor (view demo_state3) (PreviousOutPoint ?i) = Some ?e"
    by (simp add: demo_simps)
  have 2: "DecodeClaimScript demo_extractor (entry_pkScript ?e) = (Some ?cs, None)"
    by (simp add: demo_simps)
  have 3: "None \<noteq> Some ErrNotClaimScript" by simp
  from spend_classified_by_opcode[OF 1 2 3, of 7 "[]"]
  show "\<exists>chg. processTxIns demo_extractor 7 [?i] demo_state3 =
           Inr (demo_state3\<lparr>events := [EvLookupEntry \<lparr>Hash = [2], Index = 0\<rparr>], changes := [chg]\<rparr>) \<and>
         Type chg = SpendClaim \<and> ClaimID chg = replicate 20 7"
    by (auto simp: demo_state3_def)
next
  let ?i = "\<lparr>PreviousOutPoint = \<lparr>Hash = [4], Index = 0\<rparr>\<rparr>"
  let ?e = "\<lparr>entry_amount = 3, entry_pkScript = 182 # replicate 20 7 @ [97], entry_blockHeight = 1\<rparr>"
  let ?cs = "\<lparr>cs_Opcode = OP_SUPPORTCLAIM, cs_Name = [97], cs_ClaimID = replicate 20 7\<rparr>"
  have 1: "LookupEntry demo_extractor (view demo_state3) (PreviousOutPoint ?i) = Some ?e"
    by (simp add: demo_simps)
  have 2: "DecodeClaimScript demo_extractor (entry_pkScript ?e) = (Some ?cs, None)"
    by (simp add: demo_simps)
  have 3: "None \<noteq> Some ErrNotClaimScript" by simp
  from spend_classified_by_opcode[OF 1 2 3, of 7 "[]"]
  show "\<exists>chg. processTxIns demo_extractor 7 [?i] demo_state3 =
           Inr (demo_state3\<lparr>events := [EvLookupEntry \<lparr>Hash = [4], Index = 0\<rparr>], changes := [chg]\<rparr>) \<and>
         Type chg = SpendSupport \<and> ClaimID chg = replicate 20 7"
    by (auto simp: demo_state3_def)
qed

theorem replay_load_outcomes_witness:
  "replay_loop demo_replay_env demo_chain 2 4
      \<lparr>ct = \<lparr>dct_height = 2, dct_names = [[97]]\<rparr>, trace = []\<rparr> =
     replay_loop demo_replay_env demo_chain 3 4
      \<lparr>ct = \<lparr>dct_height = 3, dct_names = [[97]]\<rparr>,
       trace = [EvLoad 3, EvAppendBlock, EvBlockByHeight 3]\<rparr> \<and>
   replay_loop demo_replay_env demo_chain 4 6
      \<lparr>ct = \<lparr>dct_height = 4, dct_names = [[97]]\<rparr>, trace = []\<rparr> =
     (Some (LoadChanges 4), \<lparr>ct = \<lparr>dct_height = 4, dct_names = [[97]]\<rparr>, trace = [EvLoad 5]\<rparr>) \<and>
   loaded (trace (snd (replay_loop demo_replay_env demo_chain 2 4
      \<lparr>ct = \<lparr>dct_height = 2, dct_names = [[97]]\<rparr>, trace = []\<rparr>))) = [3, 4]"
proof (intro conjI)
  let ?s2 = "\<lparr>ct = \<lparr>dct_height = 2, dct_names = [[97]]\<rparr>, trace = []\<rparr>"
  let ?s4 = "\<lparr>ct = \<lparr>dct_height = 4, dct_names = [[97]]\<rparr>, trace = []\<rparr>"
  have a: "(2::int) < 4 \<and> Load (rp_chainrepo demo_replay_env) (2 + 1) = ([], Some ErrNotFound)"
    by (simp add: demo_simps)
  have ab: "appendBlock demo_replay_env demo_chain (?s2\<lparr>trace := trace ?s2 @ [EvLoad (2 + 1)]\<rparr>) =
      (None, \<lparr>ct = \<lparr>dct_height = 3, dct_names = [[97]]\<rparr>,
              trace = [EvLoad 3, EvAppendBlock, EvBlockByHeight 3]\<rparr>)"
    by (simp add: demo_simps appendBlock_def Let_def)
  from replay_load_outcomes[of 2 4 demo_replay_env demo_chain ?s2] a
  have "replay_loop demo_replay_env demo_chain 2 4 ?s2 =
        (case appendBlock demo_replay_env demo_chain (?s2\<lparr>trace := trace ?s2 @ [EvLoad (2 + 1)]\<rparr>) of
           (Some e, st3) \<Rightarrow> (Some (AppendBlockFailed e), st3)
         | (None, st3) \<Rightarrow> replay_loop demo_replay_env demo_chain (2 + 1) 4 st3)"
    by blast
  then show "replay_loop demo_replay_env demo_chain 2 4 ?s2 =
     replay_loop demo_replay_env demo_chain 3 4
      \<lparr>ct = \<lparr>dct_height = 3, dct_names = [[97]]\<rparr>,
       trace = [EvLoad 3, EvAppendBlock, EvBlockByHeight 3]\<rparr>"
    unfolding ab by simp
  have b: "(4::int) < 6 \<and> snd (Load (rp_chainrepo demo_replay_env) (4 + 1)) = Some ErrStore"
    by (simp add: demo_simps)
  from replay_load_outcomes[of 4 6 demo_replay_env demo_chain ?s4] b
  have "replay_loop demo_replay_env demo_chain 4 6 ?s4 =
        (Some (LoadChanges 4), ?s4\<lparr>trace := trace ?s4 @ [EvLoad (4 + 1)]\<rparr>)"
    by blast
  then show "replay_loop demo_replay_env demo_chain 4 6 ?s4 =
     (Some (LoadChanges 4), \<lparr>ct = \<lparr>dct_height = 4, dct_names = [[97]]\<rparr>, trace = [EvLoad 5]\<rparr>)"
    by simp
  have c: "fst (replay_loop demo_replay_env demo_chain 2 4 ?s2) = None"
    by (simp add: demo_simps replay_simps)
  from replay_load_outcomes[of 2 4 demo_replay_env demo_chain ?s2] c
  obtain k where "loaded (trace (snd (replay_loop demo_replay_env demo_chain 2 4 ?s2))) =
      loaded (trace ?s2) @ [2 + 1..k]" "k = max 2 4" by blast
  then show "loaded (trace (snd (replay_loop demo_replay_env demo_chain 2 4 ?s2))) = [3, 4]"
    by (simp add: upto_rec1)
qed

theorem claim_script_decode_outcomes_witness:
  "processTxIns demo_extractor 1 [\<lparr>PreviousOutPoint = \<lparr>Hash = [1], Index = 1\<rparr>\<rparr>] demo_state1 =
     Inr (demo_state1\<lparr>events := events demo_state1 @ [EvLookupEntry \<lparr>Hash = [1], Index = 1\<rparr>]\<rparr>) \<and>
   processTxOuts demo_extractor 1 [2] 0 [\<lparr>Value = 39, PkScript = [81]\<rparr>] demo_state1 = Inr demo_state1 \<and>
   isl (extractBlock demo_extractor
          \<lparr>block_Height = 1, Transactions = [demo_tx_bad], ClaimTrie = [2]\<rparr> demo_state1) \<and>
   isl (extractBlock demo_extractor
          \<lparr>block_Height = 2, Transactions = [demo_tx_spend_bad], ClaimTrie = [2]\<rparr> demo_state3) \<and>
   changesChan (processBlock_loop demo_extractor
      [\<lparr>block_Height = 1, Transactions = [demo_tx_bad], ClaimTrie = [2]\<rparr>, demo_block1]
      demo_state1 [[demo_chg1]] 1) = [[demo_chg1]] \<and>
   crashed (processBlock_loop demo_extractor
      [\<lparr>block_Height = 1, Transactions = [demo_tx_bad], ClaimTrie = [2]\<rparr>, demo_block1]
      demo_state1 [[demo_chg1]] 1) \<noteq> None"
proof -
  let ?i = "\<lparr>PreviousOutPoint = \<lparr>Hash = [1], Index = 1\<rparr>\<rparr>"
  let ?e = "\<lparr>entry_amount = 39, entry_pkScript = [81], entry_blockHeight = 0\<rparr>"
  let ?o = "\<lparr>Value = 39, PkScript = [81]\<rparr>"
  let ?bad = "\<lparr>Value = 5, PkScript = [183, 7]\<rparr>"
  let ?b1 = "\<lparr>block_Height = 1, Transactions = [demo_tx_bad], ClaimTrie = [2]\<rparr>"
  let ?b2 = "\<lparr>block_Height = 2, Transactions = [demo_tx_spend_bad], ClaimTrie = [2]\<rparr>"
  let ?spent = "\<lparr>PreviousOutPoint = \<lparr>Hash = [3], Index = 0\<rparr>\<rparr>"
  let ?e' = "\<lparr>entry_amount = 5, entry_pkScript = [183, 7], entry_blockHeight = 1\<rparr>"
  note inst = claim_script_decode_outcomes[of demo_extractor]
  have a: "LookupEntry demo_extractor (view demo_state1) (PreviousOutPoint ?i) = Some ?e \<and>
    snd (DecodeClaimScript demo_extractor (entry_pkScript ?e)) = Some ErrNotClaimScript"
    by (simp add: demo_simps)
  have b: "snd (DecodeClaimScript demo_extractor (PkScript ?o)) = Some ErrNotClaimScript"
    by (simp add: demo_simps)
  have c: "Transactions ?b1 = [] @ demo_tx_bad # [] \<and> \<not> IsCoinBase demo_extractor demo_tx_bad \<and>
    ?bad \<in> set (tx_TxOut demo_tx_bad) \<and>
    fst (DecodeClaimScript demo_extractor (PkScript ?bad)) = None \<and>
    snd (DecodeClaimScript demo_extractor (PkScript ?bad)) \<noteq> Some ErrNotClaimScript"
    by (simp add: demo_simps)
  have d: "Transactions ?b2 = [] @ demo_tx_spend_bad # [] \<and>
    \<not> IsCoinBase demo_extractor demo_tx_spend_bad \<and> ?spent \<in> set (tx_TxIn demo_tx_spend_bad) \<and>
    LookupEntry demo_extractor
      (foldl (\<lambda>v t. AddTxOuts demo_extractor t (block_Height ?b2) v) (view demo_state3)
         ([] @ [demo_tx_spend_bad]))
      (PreviousOutPoint ?spent) = Some ?e' \<and>
    fst (DecodeClaimScript demo_extractor (entry_pkScript ?e')) = None \<and>
    snd (DecodeClaimScript demo_extractor (entry_pkScript ?e')) \<noteq> Some ErrNotClaimScript"
    by (simp add: demo_simps)
  have 1: "processTxIns demo_extractor 1 [?i] demo_state1 =
     Inr (demo_state1\<lparr>events := events demo_state1 @ [EvLookupEntry \<lparr>Hash = [1], Index = 1\<rparr>]\<rparr>)"
    using inst[of demo_state1 ?i ?e 1 "[]"] a by simp
  have 2: "processTxOuts demo_extractor 1 [2] 0 [?o] demo_state1 = Inr demo_state1"
    using inst[where txOut = ?o and h = 1 and txh = "[2]" and n = 0 and outs = "[]" and st = demo_state1] b
    by simp
  have 3: "isl (extractBlock demo_extractor ?b1 demo_state1)"
    using inst[where b = ?b1 and pre = "[]" and tx = demo_tx_bad and post = "[]" and bad = ?bad
                and ?st0.0 = demo_state1] c by blast
  have 4: "isl (extractBlock demo_extractor ?b2 demo_state3)"
    using inst[where b = ?b2 and pre = "[]" and tx = demo_tx_spend_bad and post = "[]"
                and spent = ?spent and e' = ?e' and ?st0.0 = demo_state3] d by blast
  have 5: "changesChan (processBlock_loop demo_extractor [?b1, demo_block1] demo_state1 [[demo_chg1]] 1)
             = [[demo_chg1]] \<and>
           crashed (processBlock_loop demo_extractor [?b1, demo_block1] demo_state1 [[demo_chg1]] 1)
             \<noteq> None"
    using inst[where b = ?b1 and ?st0.0 = demo_state1 and blocks = "[demo_block1]"
                and chan = "[[demo_chg1]]" and k = 1] 3 by blast
  show ?thesis using 1 2 3 4 5 by blast
qed


theorem replay_never_writes_change_log_witness:
  "ChainRepoPebble (cfg demo_globals) \<notin> set (derived_repos demo_globals) \<and>
   EvRemoveAll (claim_db_path demo_globals (ChainRepoPebble (cfg demo_globals)))
     \<notin> set (snd (replay demo_globals demo_replay_env 0 3))"
proof -
  have d: "ChainRepoPebble (cfg demo_globals) \<notin> set (derived_repos demo_globals)"
    by (simp add: demo_globals_def derived_repos_def)
  from replay_never_writes_change_log[of demo_globals demo_replay_env 0 3] d
  show ?thesis by blast
qed

end
